theory Spec2Isabelle
  imports Main "HOL-Library.Sublist" "HOL-Library.AList"
begin

section \<open>Data model\<close>

text \<open>
  The track object is the JSON document the resolve endpoint answers with. Only the
  members the content script reads are kept: \<^verbatim>\<open>id\<close>, \<^verbatim>\<open>title\<close>,
  \<^verbatim>\<open>user.username\<close>, \<^verbatim>\<open>downloadable\<close>, \<^verbatim>\<open>has_downloads_left\<close> and
  \<^verbatim>\<open>media.transcodings\<close>; a transcoding has \<^verbatim>\<open>url\<close>, \<^verbatim>\<open>quality\<close> and
  \<^verbatim>\<open>format.protocol\<close>. The nesting of the objects is kept. The member \<^verbatim>\<open>id\<close> is
  called \<open>track_id\<close> here and is a non-negative integer; the two flags are JSON
  booleans; titles, names, URLs, qualities and protocols are strings. Documents of
  another shape are outside the model.
\<close>

record format_obj =
  protocol :: string

record transcoding =
  url :: string
  quality :: string
  format :: format_obj

record media_obj =
  transcodings :: "transcoding list"

record user_obj =
  username :: string

record track =
  track_id :: nat
  title :: string
  user :: user_obj
  downloadable :: bool
  has_downloads_left :: bool
  media :: media_obj

section \<open>Rendition selection and track name\<close>

text \<open>
  \<^verbatim>\<open>pickTranscoding\<close>: the \<^verbatim>\<open>for ... of\<close> loop over the transcodings, with its
  \<^verbatim>\<open>continue\<close> for every protocol other than progressive and its \<^verbatim>\<open>return\<close> at
  the first transcoding of the wanted quality; \<open>None\<close> is \<^verbatim>\<open>null\<close>.
\<close>

fun pickTranscoding_loop :: "transcoding list \<Rightarrow> string \<Rightarrow> transcoding option" where
  "pickTranscoding_loop [] q = None"
| "pickTranscoding_loop (t # ts) q =
     (if protocol (format t) \<noteq> ''progressive'' then pickTranscoding_loop ts q
      else if quality t = q then Some t
      else pickTranscoding_loop ts q)"

definition pickTranscoding :: "track \<Rightarrow> string \<Rightarrow> transcoding option" where
  "pickTranscoding trackObj q = pickTranscoding_loop (transcodings (media trackObj)) q"

text \<open>
  The operator \<^verbatim>\<open>||\<close> on two values that are an object or \<^verbatim>\<open>null\<close>: an object
  is truthy, \<^verbatim>\<open>null\<close> is not.
\<close>

definition js_or :: "'a option \<Rightarrow> 'a option \<Rightarrow> 'a option" where
  "js_or a b = (case a of Some x \<Rightarrow> Some x | None \<Rightarrow> b)"

text \<open>\<^verbatim>\<open>String.prototype.includes\<close>: the argument occurs somewhere in the string.\<close>

fun includes_str :: "string \<Rightarrow> string \<Rightarrow> bool" where
  "includes_str [] sub = (sub = [])"
| "includes_str (c # cs) sub = (prefix sub (c # cs) \<or> includes_str cs sub)"

definition getTrackName :: "track \<Rightarrow> string" where
  "getTrackName trackObj =
     (let name = title trackObj in
      if \<not> includes_str name '' - '' then
        (let artist = username (user trackObj) in artist @ '' - '' @ name)
      else name)"

text \<open>
  \<^verbatim>\<open>lastIndexOf\<close> is \<open>-1\<close> when the character does not occur, and
  \<^verbatim>\<open>substring(n)\<close> clamps its argument to the string.
\<close>

fun lastIndexOf_from :: "string \<Rightarrow> char \<Rightarrow> int \<Rightarrow> int \<Rightarrow> int" where
  "lastIndexOf_from [] c i found = found"
| "lastIndexOf_from (x # xs) c i found =
     lastIndexOf_from xs c (i + 1) (if x = c then i else found)"

definition lastIndexOf :: "string \<Rightarrow> char \<Rightarrow> int" where
  "lastIndexOf s c = lastIndexOf_from s c 0 (- 1)"

definition substring :: "string \<Rightarrow> int \<Rightarrow> string" where
  "substring s n = drop (nat n) s"

text \<open>
  A template literal prints the track id, a non-negative integer, in decimal.
\<close>

fun string_of_nat :: "nat \<Rightarrow> string" where
  "string_of_nat n =
     (if n < 10 then [''0123456789'' ! n]
      else string_of_nat (n div 10) @ [''0123456789'' ! (n mod 10)])"

declare string_of_nat.simps [simp del]

section \<open>Cookie and client id patterns\<close>

text \<open>
  \<^verbatim>\<open>getCookie(key)\<close> matches \<^verbatim>\<open>(^|;) *key=([^;]+)\<close> against
  \<^verbatim>\<open>document.cookie\<close> and returns group 2 of the leftmost match, or \<^verbatim>\<open>null\<close>.
  \<open>cookie_value_at\<close> is the part of the pattern after \<^verbatim>\<open>(^|;)\<close>, tried at one
  place; the key is a plain word that does not begin with a space (the script only ever
  passes \<^verbatim>\<open>oauth_token\<close>), so giving back spaces never makes a match. The place is
  the start of the string first, then after each semicolon from left to right.
\<close>

definition cookie_value_at :: "string \<Rightarrow> string \<Rightarrow> string option" where
  "cookie_value_at key s =
     (let r = dropWhile (\<lambda>c. c = CHR '' '') s in
      if prefix (key @ ''='') r then
        (let v = takeWhile (\<lambda>c. c \<noteq> CHR '';'') (drop (length key + 1) r) in
         if v = [] then None else Some v)
      else None)"

fun getCookie_scan :: "string \<Rightarrow> string \<Rightarrow> string option" where
  "getCookie_scan key [] = None"
| "getCookie_scan key (c # cs) =
     (if c = CHR '';'' then
        (case cookie_value_at key cs of Some v \<Rightarrow> Some v | None \<Rightarrow> getCookie_scan key cs)
      else getCookie_scan key cs)"

definition getCookie :: "string \<Rightarrow> string \<Rightarrow> string option" where
  "getCookie key cookie =
     (case cookie_value_at key cookie of
        Some v \<Rightarrow> Some v
      | None \<Rightarrow> getCookie_scan key cookie)"

text \<open>
  The pattern of \<^verbatim>\<open>scrapeClientId\<close>, \<^verbatim>\<open>client_id:["']([A-Za-z0-9]{32})['"]\<close>:
  \<open>client_id_at\<close> tries it at the start of a text, \<open>match_client_id\<close> at every
  place from left to right, and returns group 1 of the first match.
\<close>

definition is_alnum :: "char \<Rightarrow> bool" where
  "is_alnum c =
     (let n = (of_char c :: nat) in
      (48 \<le> n \<and> n \<le> 57) \<or> (65 \<le> n \<and> n \<le> 90) \<or> (97 \<le> n \<and> n \<le> 122))"

definition is_quote :: "char \<Rightarrow> bool" where
  "is_quote c = (c = CHR 0x22 \<or> c = CHR 0x27)"

definition client_id_at :: "string \<Rightarrow> string option" where
  "client_id_at s =
     (if prefix ''client_id:'' s then
        (case drop 10 s of
           [] \<Rightarrow> None
         | q # r \<Rightarrow>
             if is_quote q \<and> length (take 32 r) = 32 \<and> list_all is_alnum (take 32 r)
                \<and> (case drop 32 r of [] \<Rightarrow> False | q' # _ \<Rightarrow> is_quote q')
             then Some (take 32 r) else None)
      else None)"

fun match_client_id :: "string \<Rightarrow> string option" where
  "match_client_id [] = None"
| "match_client_id (c # cs) =
     (case client_id_at (c # cs) of
        Some t \<Rightarrow> Some t
      | None \<Rightarrow> match_client_id cs)"

section \<open>Effects\<close>

text \<open>
  What the script throws. \<open>RequestFailed\<close> is the error of \<^verbatim>\<open>fetchJson\<close>
  (\<^verbatim>\<open>Request to <url> failed with result <status>\<close>), \<open>NoValidTranscoding\<close>
  the one of \<^verbatim>\<open>downloadTrackTranscoding\<close> (\<^verbatim>\<open>Failed to find a valid transcoding\<close>),
  \<open>NoClientId\<close> the one of \<^verbatim>\<open>scrapeClientId\<close>
  (\<^verbatim>\<open>Could not get client_id value from current page\<close>). The other three come from
  the browser: \<^verbatim>\<open>fetch\<close> rejecting, a body that cannot be read
  (\<^verbatim>\<open>json()\<close>, \<^verbatim>\<open>text()\<close>, \<^verbatim>\<open>blob()\<close> rejecting), and \<^verbatim>\<open>new URL\<close> on a
  string that is not an absolute URL.
\<close>

datatype error =
    RequestFailed string nat
  | NoValidTranscoding
  | NoClientId
  | FetchRejected string
  | BodyRejected
  | InvalidURL string

type_synonym headers = "(string \<times> string) list"

text \<open>
  The \<^verbatim>\<open>href\<close> given to the download anchor is a URL or the object URL of a blob.
\<close>

datatype href = Href string | ObjectURL string

text \<open>
  The observable actions, in the order they happen: \<open>Fetch u init\<close> is a call
  \<^verbatim>\<open>fetch(u, init)\<close> with the headers of \<^verbatim>\<open>init\<close> (\<open>None\<close> for the call with
  one argument), \<open>DownloadUrl h f\<close> a click on an anchor with \<^verbatim>\<open>href\<close> \<open>h\<close> and
  \<^verbatim>\<open>download\<close> \<open>f\<close> (\<open>None\<close> when \<^verbatim>\<open>downloadUrl\<close> is called without a
  file name).
\<close>

datatype event = Fetch string "headers option" | DownloadUrl href "string option"

text \<open>
  An asynchronous function is the list of its actions and what its promise settles to:
  \<open>Inl\<close> a rejection, \<open>Inr\<close> the value.
\<close>

type_synonym 'a io = "event list \<times> (error + 'a)"

definition ret :: "'a \<Rightarrow> 'a io" where
  "ret x = ([], Inr x)"

definition throw :: "error \<Rightarrow> 'a io" where
  "throw e = ([], Inl e)"

definition lift :: "error + 'a \<Rightarrow> 'a io" where
  "lift r = ([], r)"

definition bind_io :: "'a io \<Rightarrow> ('a \<Rightarrow> 'b io) \<Rightarrow> 'b io" where
  "bind_io m f =
     (case m of
        (tr, Inl e) \<Rightarrow> (tr, Inl e)
      | (tr, Inr x) \<Rightarrow> (case f x of (tr', r) \<Rightarrow> (tr @ tr', r)))"

text \<open>
  A response with the members the script reads; \<open>body\<close> is \<open>None\<close> when reading the
  body rejects.
\<close>

record 'a response =
  ok :: bool
  status :: nat
  body :: "'a option"

text \<open>
  The page, the preference store and the network as the script sees them during one
  action. \<open>URL_new\<close>, \<open>searchParams_append\<close>, \<open>URL_toString\<close> and
  \<open>URL_pathname\<close> are the browser's \<^verbatim>\<open>URL\<close> class, kept abstract (\<open>'u\<close> is the
  parsed URL, \<open>None\<close> the \<^verbatim>\<open>TypeError\<close> of the constructor). \<open>clientId\<close> is the
  global variable, \<open>enableHQ\<close> the truth value of the stored preference,
  \<open>document_cookie\<close> the cookie string, \<open>script_srcs\<close> the \<^verbatim>\<open>src\<close> of every
  script element in document order (empty for an inline script). The five \<open>fetch\<close>
  fields are the one function \<^verbatim>\<open>fetch\<close>, each with the body decoded as its call
  site reads it: a track object, the member \<^verbatim>\<open>url\<close>, the member
  \<^verbatim>\<open>redirectUri\<close>, a blob, a text; \<open>None\<close> is a rejected promise.
\<close>

record 'u world =
  URL_new :: "string \<Rightarrow> 'u option"
  searchParams_append :: "'u \<Rightarrow> string \<Rightarrow> string \<Rightarrow> 'u"
  URL_toString :: "'u \<Rightarrow> string"
  URL_pathname :: "'u \<Rightarrow> string"
  clientId :: string
  enableHQ :: bool
  document_cookie :: string
  script_srcs :: "string list"
  fetch_track :: "string \<Rightarrow> headers option \<Rightarrow> track response option"
  fetch_url :: "string \<Rightarrow> headers option \<Rightarrow> string response option"
  fetch_redirectUri :: "string \<Rightarrow> headers option \<Rightarrow> string response option"
  fetch_blob :: "string \<Rightarrow> headers option \<Rightarrow> string response option"
  fetch_text :: "string \<Rightarrow> headers option \<Rightarrow> string response option"

definition js_fetch ::
  "(string \<Rightarrow> headers option \<Rightarrow> 'a response option) \<Rightarrow> string \<Rightarrow> headers option
     \<Rightarrow> 'a response io" where
  "js_fetch fetch u init =
     ([Fetch u init], case fetch u init of None \<Rightarrow> Inl (FetchRejected u) | Some resp \<Rightarrow> Inr resp)"

definition read_body :: "'a response \<Rightarrow> 'a io" where
  "read_body resp = (case body resp of None \<Rightarrow> throw BodyRejected | Some b \<Rightarrow> ret b)"

section \<open>The API client\<close>

definition withQuery :: "'u world \<Rightarrow> string \<Rightarrow> (string \<times> string) list \<Rightarrow> error + string" where
  "withQuery w baseUrl params =
     (case URL_new w baseUrl of
        None \<Rightarrow> Inl (InvalidURL baseUrl)
      | Some u \<Rightarrow>
          Inr (URL_toString w (foldl (\<lambda>u' (k, v). searchParams_append w u' k v) u params)))"

definition fetchJson ::
  "'u world \<Rightarrow> (string \<Rightarrow> headers option \<Rightarrow> 'a response option) \<Rightarrow> string \<Rightarrow> headers
     \<Rightarrow> (string \<times> string) list option \<Rightarrow> 'a io" where
  "fetchJson w fetch u hdrs query =
     bind_io (case query of None \<Rightarrow> ret u | Some params \<Rightarrow> lift (withQuery w u params)) (\<lambda>u'.
     bind_io (js_fetch fetch u' (Some hdrs)) (\<lambda>resp.
       if \<not> ok resp then throw (RequestFailed u' (status resp))
       else read_body resp))"

text \<open>
  The object spread \<^verbatim>\<open>{"client_id": clientId, ...args}\<close> keeps \<^verbatim>\<open>client_id\<close>
  first and adds or overwrites the members of \<open>args\<close> in their order.
\<close>

definition fetchAuthorizedJson ::
  "'u world \<Rightarrow> (string \<Rightarrow> headers option \<Rightarrow> 'a response option) \<Rightarrow> string \<Rightarrow> string option
     \<Rightarrow> (string \<times> string) list \<Rightarrow> 'a io" where
  "fetchAuthorizedJson w fetch u authToken args =
     (let hdrs = (case authToken of
                    None \<Rightarrow> []
                  | Some tok \<Rightarrow> [(''Authorization'', ''OAuth '' @ tok)]);
          query = foldl (\<lambda>q (k, v). AList.update k v q) [(''client_id'', clientId w)] args
      in fetchJson w fetch u hdrs (Some query))"

definition downloadUrl :: "href \<Rightarrow> string option \<Rightarrow> unit io" where
  "downloadUrl h filename = ([DownloadUrl h filename], Inr ())"

section \<open>The download action\<close>

text \<open>
  The part of \<^verbatim>\<open>downloadTrackTranscoding\<close> after the transcoding is chosen: the
  request that turns the transcoding's URL into the file's URL, the file name, the one
  \<^verbatim>\<open>fetch\<close> of the file and the save.
\<close>

definition downloadTranscoding ::
  "'u world \<Rightarrow> track \<Rightarrow> string option \<Rightarrow> transcoding \<Rightarrow> unit io" where
  "downloadTranscoding w trackObj authToken tc =
     bind_io (fetchAuthorizedJson w (fetch_url w) (url tc) authToken []) (\<lambda>file_url.
       let name = getTrackName trackObj in
       case URL_new w file_url of
         None \<Rightarrow> throw (InvalidURL file_url)
       | Some parsed \<Rightarrow>
           let path = URL_pathname w parsed;
               extension = substring path (lastIndexOf path CHR ''.'' + 1);
               filename = name @ ''.'' @ extension
           in bind_io (js_fetch (fetch_blob w) file_url None) (\<lambda>resp.
              bind_io (read_body resp) (\<lambda>blob.
                downloadUrl (ObjectURL blob) (Some filename))))"

definition downloadTrackTranscoding :: "'u world \<Rightarrow> track \<Rightarrow> string option \<Rightarrow> unit io" where
  "downloadTrackTranscoding w trackObj authToken =
     (case js_or (pickTranscoding trackObj ''hq'') (pickTranscoding trackObj ''sq'') of
        None \<Rightarrow> throw NoValidTranscoding
      | Some tc \<Rightarrow> downloadTranscoding w trackObj authToken tc)"

definition downloadNative :: "'u world \<Rightarrow> nat \<Rightarrow> unit io" where
  "downloadNative w trackId =
     bind_io (fetchAuthorizedJson w (fetch_redirectUri w)
                (''https://api-v2.soundcloud.com/tracks/'' @ string_of_nat trackId @ ''/download'')
                None [])
       (\<lambda>redirectUri. downloadUrl (Href redirectUri) None)"

definition downloadTrack :: "'u world \<Rightarrow> string \<Rightarrow> unit io" where
  "downloadTrack w trackUrl =
     (let authToken = (if enableHQ w then getCookie ''oauth_token'' (document_cookie w) else None)
      in bind_io (fetchAuthorizedJson w (fetch_track w) ''https://api-v2.soundcloud.com/resolve''
                    authToken [(''url'', trackUrl)])
           (\<lambda>trackObj.
              if downloadable trackObj \<and> has_downloads_left trackObj
              then downloadNative w (track_id trackObj)
              else downloadTrackTranscoding w trackObj authToken))"

section \<open>Client id acquisition\<close>

text \<open>
  The loop of \<^verbatim>\<open>scrapeClientId\<close> over the script elements: an element without
  \<^verbatim>\<open>src\<close> is skipped, a \<^verbatim>\<open>fetch\<close> that rejects is caught and the loop goes on;
  reading the text is outside the \<^verbatim>\<open>try\<close>.
\<close>

fun scrapeClientId_loop :: "'u world \<Rightarrow> string list \<Rightarrow> string io" where
  "scrapeClientId_loop w [] = throw NoClientId"
| "scrapeClientId_loop w (src # rest) =
     (if src = [] then scrapeClientId_loop w rest
      else
        (case fetch_text w src None of
           None \<Rightarrow> bind_io ([Fetch src None], Inr ()) (\<lambda>_. scrapeClientId_loop w rest)
         | Some resp \<Rightarrow>
             bind_io ([Fetch src None], Inr ()) (\<lambda>_.
             bind_io (read_body resp) (\<lambda>text.
               case match_client_id text of
                 Some cid \<Rightarrow> ret cid
               | None \<Rightarrow> scrapeClientId_loop w rest))))"

definition scrapeClientId :: "'u world \<Rightarrow> string io" where
  "scrapeClientId w = scrapeClientId_loop w (script_srcs w)"

section \<open>A concrete page and network\<close>

text \<open>
  A small world on which the theorems below are instantiated. Its \<^verbatim>\<open>URL\<close> class
  takes every string that starts with \<^verbatim>\<open>https://\<close>, keeps the query as a list and
  prints it after a question mark; the path starts at the first slash after the host.
\<close>

type_synonym demo_url = "string \<times> (string \<times> string) list"

definition demo_URL_new :: "string \<Rightarrow> demo_url option" where
  "demo_URL_new s = (if prefix ''https://'' s then Some (s, []) else None)"

definition demo_append :: "demo_url \<Rightarrow> string \<Rightarrow> string \<Rightarrow> demo_url" where
  "demo_append u k v = (fst u, snd u @ [(k, v)])"

definition demo_toString :: "demo_url \<Rightarrow> string" where
  "demo_toString u =
     (case snd u of
        [] \<Rightarrow> fst u
      | (k, v) # rest \<Rightarrow>
          fst u @ ''?'' @ k @ ''='' @ v @ concat (map (\<lambda>(k', v'). ''&'' @ k' @ ''='' @ v') rest))"

definition demo_pathname :: "demo_url \<Rightarrow> string" where
  "demo_pathname u = dropWhile (\<lambda>c. c \<noteq> CHR ''/'') (drop 8 (fst u))"

definition hls_hq :: transcoding where
  "hls_hq = \<lparr>url = ''https://api-v2.soundcloud.com/media/1/stream/hls-hq'', quality = ''hq'',
             format = \<lparr>protocol = ''hls''\<rparr>\<rparr>"

definition hls_sq :: transcoding where
  "hls_sq = \<lparr>url = ''https://api-v2.soundcloud.com/media/1/stream/hls'', quality = ''sq'',
             format = \<lparr>protocol = ''hls''\<rparr>\<rparr>"

definition progressive_sq :: transcoding where
  "progressive_sq = \<lparr>url = ''https://api-v2.soundcloud.com/media/1/stream/progressive'',
                     quality = ''sq'', format = \<lparr>protocol = ''progressive''\<rparr>\<rparr>"

definition progressive_hq :: transcoding where
  "progressive_hq = \<lparr>url = ''https://api-v2.soundcloud.com/media/1/stream/progressive-hq'',
                     quality = ''hq'', format = \<lparr>protocol = ''progressive''\<rparr>\<rparr>"

definition departure_remix :: track where
  "departure_remix =
     \<lparr>track_id = 1, title = ''Departure Remix'', user = \<lparr>username = ''choicescarf''\<rparr>,
      downloadable = False, has_downloads_left = False,
      media = \<lparr>transcodings = [hls_hq, progressive_sq]\<rparr>\<rparr>"

definition night_drive :: track where
  "night_drive =
     \<lparr>track_id = 7, title = ''DJ Snake - Night Drive'', user = \<lparr>username = ''djsnake''\<rparr>,
      downloadable = True, has_downloads_left = True,
      media = \<lparr>transcodings = [hls_sq, progressive_sq, progressive_hq]\<rparr>\<rparr>"

definition demo_script :: string where
  "demo_script = ''var cfg={env:1,client_id:'' @ [CHR 0x22] @
     ''L6pWQKWWm6oT4Nv0mTWEkxKypNpleA5m'' @ [CHR 0x22] @ ''};''"

text \<open>
  \<open>demo_world hq t\<close>: the preference is \<open>hq\<close>, the user is logged in, the resolve
  endpoint answers with the track \<open>t\<close>. Of the page's four script elements the first
  is inline, the second cannot be fetched, the third has no client id and the fourth
  has one.
\<close>

definition demo_world :: "bool \<Rightarrow> track \<Rightarrow> demo_url world" where
  "demo_world hq t =
     \<lparr>URL_new = demo_URL_new,
      searchParams_append = demo_append,
      URL_toString = demo_toString,
      URL_pathname = demo_pathname,
      clientId = ''L6pWQKWWm6oT4Nv0mTWEkxKypNpleA5m'',
      enableHQ = hq,
      document_cookie = ''sc_anonymous_id=4711; oauth_token=2-29-secret'',
      script_srcs = [[], ''https://a-v2.sndcdn.com/assets/0.js'',
                     ''https://a-v2.sndcdn.com/assets/1.js'', ''https://a-v2.sndcdn.com/assets/2.js''],
      fetch_track = (\<lambda>u init. Some \<lparr>ok = True, status = 200, body = Some t\<rparr>),
      fetch_url = (\<lambda>u init. Some \<lparr>ok = True, status = 200,
                                   body = Some ''https://cf-media.sndcdn.com/abc.128.mp3''\<rparr>),
      fetch_redirectUri = (\<lambda>u init. Some \<lparr>ok = True, status = 200,
                                   body = Some ''https://cf-media.sndcdn.com/original.wav''\<rparr>),
      fetch_blob = (\<lambda>u init. Some \<lparr>ok = True, status = 200, body = Some ''ID3''\<rparr>),
      fetch_text = (\<lambda>u init.
         if u = ''https://a-v2.sndcdn.com/assets/0.js'' then None
         else if u = ''https://a-v2.sndcdn.com/assets/1.js''
           then Some \<lparr>ok = True, status = 200, body = Some ''var client_id;''\<rparr>
         else Some \<lparr>ok = True, status = 200, body = Some demo_script\<rparr>)\<rparr>"

definition streaming_only :: track where
  "streaming_only = departure_remix\<lparr>media := \<lparr>transcodings = [hls_hq, hls_sq, hls_hq]\<rparr>\<rparr>"

definition both_qualities :: track where
  "both_qualities =
     departure_remix\<lparr>media := \<lparr>transcodings = [hls_hq, progressive_sq, progressive_hq]\<rparr>\<rparr>"

text \<open>The same page when the resolve endpoint answers 404.\<close>

definition not_found :: "demo_url world" where
  "not_found = (demo_world False departure_remix)
     \<lparr>fetch_track := \<lambda>u init. Some \<lparr>ok = False, status = 404, body = None\<rparr>\<rparr>"

text \<open>The URLs requested by the \<open>Fetch\<close> actions of a trace, in order.\<close>

fun fetch_urls :: "event list \<Rightarrow> string list" where
  "fetch_urls [] = []"
| "fetch_urls (Fetch u init # es) = u # fetch_urls es"
| "fetch_urls (DownloadUrl h f # es) = fetch_urls es"

text \<open>The concrete page without its last script element.\<close>

definition page_without_id :: "demo_url world" where
  "page_without_id = (demo_world True night_drive)
     \<lparr>script_srcs := [[], ''https://a-v2.sndcdn.com/assets/0.js'',
                      ''https://a-v2.sndcdn.com/assets/1.js'']\<rparr>"

text \<open>
  Three pages with one script whose response arrives and whose body cannot be read
  (the connection drops while \<^verbatim>\<open>text()\<close> reads it): followed by a script that
  holds the client id; the same with the first script's \<^verbatim>\<open>fetch\<close> rejecting
  instead; and alone.
\<close>

definition page_unreadable_script :: "demo_url world" where
  "page_unreadable_script = (demo_world True night_drive)
     \<lparr>script_srcs := [''https://a-v2.sndcdn.com/assets/1.js'',
                      ''https://a-v2.sndcdn.com/assets/2.js''],
      fetch_text := \<lambda>u init.
        if u = ''https://a-v2.sndcdn.com/assets/1.js''
        then Some \<lparr>ok = True, status = 200, body = None\<rparr>
        else Some \<lparr>ok = True, status = 200, body = Some demo_script\<rparr>\<rparr>"

definition page_unfetchable_script :: "demo_url world" where
  "page_unfetchable_script = page_unreadable_script
     \<lparr>fetch_text := \<lambda>u init.
        if u = ''https://a-v2.sndcdn.com/assets/1.js'' then None
        else Some \<lparr>ok = True, status = 200, body = Some demo_script\<rparr>\<rparr>"

definition page_only_unreadable :: "demo_url world" where
  "page_only_unreadable = page_unreadable_script
     \<lparr>script_srcs := [''https://a-v2.sndcdn.com/assets/1.js'']\<rparr>"

section \<open>Rendition selection\<close>

lemma pickTranscoding_loop_Some:
  "pickTranscoding_loop ts q = Some t \<Longrightarrow>
     t \<in> set ts \<and> protocol (format t) = ''progressive'' \<and> quality t = q"
  by (induction ts) (auto split: if_splits)

lemma pickTranscoding_loop_None:
  "pickTranscoding_loop ts q = None \<longleftrightarrow>
     (\<forall>t \<in> set ts. protocol (format t) = ''progressive'' \<longrightarrow> quality t \<noteq> q)"
  by (induction ts) auto

lemma pickTranscoding_loop_first:
  "pickTranscoding_loop ts q = Some t \<Longrightarrow>
     \<exists>pre post. ts = pre @ t # post \<and>
       (\<forall>x \<in> set pre. protocol (format x) = ''progressive'' \<longrightarrow> quality x \<noteq> q)"
proof (induction ts)
  case Nil
  then show ?case by simp
next
  case (Cons a ts)
  show ?case
  proof (cases "protocol (format a) = ''progressive'' \<and> quality a = q")
    case True
    with Cons.prems have "a = t" by simp
    then have "a # ts = [] @ t # ts \<and>
        (\<forall>x \<in> set []. protocol (format x) = ''progressive'' \<longrightarrow> quality x \<noteq> q)"
      by simp
    then show ?thesis by blast
  next
    case False
    with Cons.prems have "pickTranscoding_loop ts q = Some t" by (auto split: if_splits)
    with Cons.IH obtain pre post where p: "ts = pre @ t # post"
      "\<forall>x \<in> set pre. protocol (format x) = ''progressive'' \<longrightarrow> quality x \<noteq> q"
      by blast
    with False have "a # ts = (a # pre) @ t # post \<and>
        (\<forall>x \<in> set (a # pre). protocol (format x) = ''progressive'' \<longrightarrow> quality x \<noteq> q)"
      by auto
    then show ?thesis by blast
  qed
qed

lemma js_or_Some:
  "js_or a b = Some x \<longleftrightarrow> a = Some x \<or> (a = None \<and> b = Some x)"
  by (cases a) (auto simp: js_or_def)

lemma js_or_None: "js_or a b = None \<longleftrightarrow> a = None \<and> b = None"
  by (cases a) (auto simp: js_or_def)

text \<open>
  Claim C5. For every track object and every requested quality, \<open>pickTranscoding\<close>
  returns \<^verbatim>\<open>null\<close> or one of the track's transcodings whose protocol is
  \<^verbatim>\<open>progressive\<close> and whose quality is the requested one. A transcoding of any other
  protocol (the segmented-streaming ones) is never returned, and so is never the
  transcoding that \<^verbatim>\<open>downloadTrackTranscoding\<close> selects with
  \<^verbatim>\<open>pickTranscoding(trackObj, "hq") || pickTranscoding(trackObj, "sq")\<close>.
\<close>

theorem pickTranscoding_progressive_only:
  "(pickTranscoding trackObj q = None \<or>
      (\<exists>t. pickTranscoding trackObj q = Some t \<and> t \<in> set (transcodings (media trackObj)) \<and>
           protocol (format t) = ''progressive'' \<and> quality t = q)) \<and>
   (\<forall>t. protocol (format t) \<noteq> ''progressive'' \<longrightarrow>
      pickTranscoding trackObj q \<noteq> Some t \<and>
      js_or (pickTranscoding trackObj ''hq'') (pickTranscoding trackObj ''sq'') \<noteq> Some t)"
proof -
  have a: "pickTranscoding trackObj q' = Some t \<Longrightarrow>
      t \<in> set (transcodings (media trackObj)) \<and> protocol (format t) = ''progressive'' \<and>
      quality t = q'" for t q'
    unfolding pickTranscoding_def by (rule pickTranscoding_loop_Some)
  have "pickTranscoding trackObj q = None \<or>
      (\<exists>t. pickTranscoding trackObj q = Some t \<and> t \<in> set (transcodings (media trackObj)) \<and>
           protocol (format t) = ''progressive'' \<and> quality t = q)"
  proof (cases "pickTranscoding trackObj q")
    case None
    then show ?thesis by simp
  next
    case (Some t)
    with a [of q t] show ?thesis by simp
  qed
  moreover have "pickTranscoding trackObj q \<noteq> Some t \<and>
      js_or (pickTranscoding trackObj ''hq'') (pickTranscoding trackObj ''sq'') \<noteq> Some t"
    if "protocol (format t) \<noteq> ''progressive''" for t
    using that a [of q t] a [of "''hq''" t] a [of "''sq''" t] by (auto simp: js_or_Some)
  ultimately show ?thesis by blast
qed

text \<open>
  On the track of the specification's example, whose high-quality rendition is
  segmented and whose standard one is a direct file.
\<close>

theorem pickTranscoding_progressive_only_witness:
  "pickTranscoding departure_remix ''sq'' = Some progressive_sq \<and>
   pickTranscoding departure_remix ''hq'' = None \<and>
   protocol (format hls_hq) \<noteq> ''progressive'' \<and>
   hls_hq \<in> set (transcodings (media departure_remix)) \<and>
   pickTranscoding departure_remix ''hq'' \<noteq> Some hls_hq \<and>
   js_or (pickTranscoding departure_remix ''hq'') (pickTranscoding departure_remix ''sq'')
     \<noteq> Some hls_hq"
  using pickTranscoding_progressive_only [of departure_remix "''hq''"]
  by (simp add: pickTranscoding_def departure_remix_def hls_hq_def progressive_sq_def js_or_def)

text \<open>
  Claim C2. For every track object whose transcodings hold no rendition with protocol
  \<^verbatim>\<open>progressive\<close>, \<^verbatim>\<open>downloadTrackTranscoding\<close> throws its own error
  (\<^verbatim>\<open>Failed to find a valid transcoding\<close>, the specification's
  \<^verbatim>\<open>NoEligibleRendition\<close>) before it sends any request, whatever streaming
  renditions the list holds.
\<close>

theorem no_progressive_rendition_fails:
  assumes "\<forall>t \<in> set (transcodings (media trackObj)). protocol (format t) \<noteq> ''progressive''"
  shows "downloadTrackTranscoding w trackObj authToken = ([], Inl NoValidTranscoding)"
proof -
  have "pickTranscoding trackObj q = None" for q
    using assms by (simp add: pickTranscoding_def pickTranscoding_loop_None)
  then show ?thesis
    by (simp add: downloadTrackTranscoding_def js_or_def throw_def)
qed

text \<open>A track with three segmented renditions, of both qualities.\<close>

theorem no_progressive_rendition_fails_witness:
  "list_all (\<lambda>t. protocol (format t) \<noteq> ''progressive'') (transcodings (media streaming_only)) \<and>
   length (transcodings (media streaming_only)) = 3 \<and>
   downloadTrackTranscoding (demo_world True streaming_only) streaming_only (Some ''2-29-secret'')
     = ([], Inl NoValidTranscoding)"
  using no_progressive_rendition_fails [of streaming_only "demo_world True streaming_only"
      "Some ''2-29-secret''"]
  by (simp add: streaming_only_def departure_remix_def hls_hq_def hls_sq_def)

text \<open>
  Claim C4. For every track object whose transcodings hold a high-quality and a
  standard-quality progressive rendition, the selection of
  \<^verbatim>\<open>downloadTrackTranscoding\<close> is a high-quality progressive rendition: the first
  one in the list. The choice depends on the track object alone: with every page,
  network and token the function goes on with that same rendition.
\<close>

theorem high_quality_preferred:
  assumes "h \<in> set (transcodings (media trackObj))"
    and "protocol (format h) = ''progressive''" and "quality h = ''hq''"
    and "s \<in> set (transcodings (media trackObj))"
    and "protocol (format s) = ''progressive''" and "quality s = ''sq''"
  shows "\<exists>t pre post.
     js_or (pickTranscoding trackObj ''hq'') (pickTranscoding trackObj ''sq'') = Some t \<and>
     quality t = ''hq'' \<and> protocol (format t) = ''progressive'' \<and>
     transcodings (media trackObj) = pre @ t # post \<and>
     (\<forall>x \<in> set pre. protocol (format x) = ''progressive'' \<longrightarrow> quality x \<noteq> ''hq'') \<and>
     (\<forall>w authToken. downloadTrackTranscoding w trackObj authToken
        = downloadTranscoding w trackObj authToken t)"
proof -
  have "pickTranscoding trackObj ''hq'' \<noteq> None"
    using assms(1-3) by (auto simp: pickTranscoding_def pickTranscoding_loop_None)
  then obtain t where t: "pickTranscoding trackObj ''hq'' = Some t" by blast
  then have l: "pickTranscoding_loop (transcodings (media trackObj)) ''hq'' = Some t"
    by (simp add: pickTranscoding_def)
  from pickTranscoding_loop_Some [OF l]
  have q: "quality t = ''hq''" "protocol (format t) = ''progressive''" by simp_all
  from pickTranscoding_loop_first [OF l] obtain pre post where
    p: "transcodings (media trackObj) = pre @ t # post"
       "\<forall>x \<in> set pre. protocol (format x) = ''progressive'' \<longrightarrow> quality x \<noteq> ''hq''"
    by blast
  have j: "js_or (pickTranscoding trackObj ''hq'') (pickTranscoding trackObj ''sq'') = Some t"
    using t by (simp add: js_or_def)
  have d: "downloadTrackTranscoding w trackObj authToken
        = downloadTranscoding w trackObj authToken t" for w :: "'a world" and authToken
    using j by (simp add: downloadTrackTranscoding_def)
  from j q p d show ?thesis by blast
qed

text \<open>
  A track that lists the standard-quality direct file before the high-quality one.
\<close>

theorem high_quality_preferred_witness:
  "progressive_hq \<in> set (transcodings (media both_qualities)) \<and>
   progressive_sq \<in> set (transcodings (media both_qualities)) \<and>
   js_or (pickTranscoding both_qualities ''hq'') (pickTranscoding both_qualities ''sq'')
     = Some progressive_hq \<and>
   downloadTrackTranscoding (demo_world False both_qualities) both_qualities None
     = downloadTranscoding (demo_world False both_qualities) both_qualities None progressive_hq"
proof -
  have h: "progressive_hq \<in> set (transcodings (media both_qualities))"
    "protocol (format progressive_hq) = ''progressive''" "quality progressive_hq = ''hq''"
    and s: "progressive_sq \<in> set (transcodings (media both_qualities))"
    "protocol (format progressive_sq) = ''progressive''" "quality progressive_sq = ''sq''"
    by (simp_all add: both_qualities_def progressive_hq_def progressive_sq_def)
  have j: "js_or (pickTranscoding both_qualities ''hq'') (pickTranscoding both_qualities ''sq'')
     = Some progressive_hq"
    by (simp add: both_qualities_def pickTranscoding_def js_or_def hls_hq_def
        progressive_sq_def progressive_hq_def)
  from high_quality_preferred [OF h s] j h(1) s(1) show ?thesis by auto
qed

section \<open>Strings\<close>

lemma includes_str_iff: "includes_str s sub \<longleftrightarrow> (\<exists>p r. s = p @ sub @ r)"
proof (induction s)
  case Nil
  then show ?case by auto
next
  case (Cons c cs)
  show ?case
  proof
    assume "includes_str (c # cs) sub"
    then consider "prefix sub (c # cs)" | "includes_str cs sub" by auto
    then show "\<exists>p r. c # cs = p @ sub @ r"
    proof cases
      case 1
      then obtain r where "c # cs = sub @ r" by (auto simp: prefix_def)
      then have "c # cs = [] @ sub @ r" by simp
      then show ?thesis by blast
    next
      case 2
      with Cons.IH obtain p r where "cs = p @ sub @ r" by blast
      then have "c # cs = (c # p) @ sub @ r" by simp
      then show ?thesis by blast
    qed
  next
    assume "\<exists>p r. c # cs = p @ sub @ r"
    then obtain p r where e: "c # cs = p @ sub @ r" by blast
    show "includes_str (c # cs) sub"
    proof (cases p)
      case Nil
      with e have "prefix sub (c # cs)" by (auto simp: prefix_def)
      then show ?thesis by simp
    next
      case (Cons a p')
      with e have "cs = p' @ sub @ r" by simp
      with Cons.IH have "includes_str cs sub" by blast
      then show ?thesis by simp
    qed
  qed
qed

text \<open>
  The extension computed by \<^verbatim>\<open>path.substring(path.lastIndexOf(".") + 1)\<close>: what
  follows the last dot, or the whole path when it has no dot.
\<close>

lemma lastIndexOf_from_absent:
  "c \<notin> set s \<Longrightarrow> lastIndexOf_from s c i found = found"
  by (induction s arbitrary: i) auto

lemma lastIndexOf_from_last:
  "c \<notin> set e \<Longrightarrow> lastIndexOf_from (p @ c # e) c i found = i + int (length p)"
  by (induction p arbitrary: i found) (auto simp: lastIndexOf_from_absent)

lemma extension_after_last:
  "c \<notin> set e \<Longrightarrow> substring (p @ c # e) (lastIndexOf (p @ c # e) c + 1) = e"
  by (simp add: substring_def lastIndexOf_def lastIndexOf_from_last nat_add_distrib)

lemma extension_without:
  "c \<notin> set p \<Longrightarrow> substring p (lastIndexOf p c + 1) = p"
  by (simp add: substring_def lastIndexOf_def lastIndexOf_from_absent)

section \<open>Sequencing\<close>

lemma bind_io_Inl: "bind_io (tr, Inl e) f = (tr, Inl e)"
  by (simp add: bind_io_def)

lemma bind_io_Inr: "bind_io (tr, Inr x) f = (tr @ fst (f x), snd (f x))"
  by (simp add: bind_io_def split: prod.split)

lemmas io_defs = bind_io_def ret_def throw_def lift_def js_fetch_def read_body_def
  downloadUrl_def fetchJson_def fetchAuthorizedJson_def withQuery_def

section \<open>The concrete world, evaluated\<close>

lemma demo_simps:
  "URL_new (demo_world hq t) = demo_URL_new"
  "searchParams_append (demo_world hq t) = demo_append"
  "URL_toString (demo_world hq t) = demo_toString"
  "URL_pathname (demo_world hq t) = demo_pathname"
  "clientId (demo_world hq t) = ''L6pWQKWWm6oT4Nv0mTWEkxKypNpleA5m''"
  "enableHQ (demo_world hq t) = hq"
  "document_cookie (demo_world hq t) = ''sc_anonymous_id=4711; oauth_token=2-29-secret''"
  "fetch_track (demo_world hq t) u i = Some \<lparr>ok = True, status = 200, body = Some t\<rparr>"
  "fetch_url (demo_world hq t) u i =
     Some \<lparr>ok = True, status = 200, body = Some ''https://cf-media.sndcdn.com/abc.128.mp3''\<rparr>"
  "fetch_redirectUri (demo_world hq t) u i =
     Some \<lparr>ok = True, status = 200, body = Some ''https://cf-media.sndcdn.com/original.wav''\<rparr>"
  "fetch_blob (demo_world hq t) u i = Some \<lparr>ok = True, status = 200, body = Some ''ID3''\<rparr>"
  by (simp_all add: demo_world_def)

lemmas demo_defs = demo_URL_new_def demo_append_def demo_toString_def demo_pathname_def

section \<open>Saving a transcoding\<close>

lemma downloadTranscoding_resolved:
  assumes "fetchAuthorizedJson w (fetch_url w) (url tc) authToken [] = (tr1, Inr file_url)"
    and "URL_new w file_url = Some parsed"
  shows "downloadTranscoding w trackObj authToken tc =
     (case fetch_blob w file_url None of
        None \<Rightarrow> (tr1 @ [Fetch file_url None], Inl (FetchRejected file_url))
      | Some resp \<Rightarrow>
          (case body resp of
             None \<Rightarrow> (tr1 @ [Fetch file_url None], Inl BodyRejected)
           | Some blob \<Rightarrow>
               (tr1 @ [Fetch file_url None,
                  DownloadUrl (ObjectURL blob)
                    (Some (getTrackName trackObj @ ''.'' @
                       substring (URL_pathname w parsed)
                         (lastIndexOf (URL_pathname w parsed) CHR ''.'' + 1)))],
                Inr ())))"
  using assms
  by (simp add: downloadTranscoding_def bind_io_Inr bind_io_Inl js_fetch_def read_body_def
      downloadUrl_def throw_def ret_def Let_def split: option.splits)

lemma downloadTranscoding_unresolved:
  "fetchAuthorizedJson w (fetch_url w) (url tc) authToken [] = (tr1, Inl e) \<Longrightarrow>
     downloadTranscoding w trackObj authToken tc = (tr1, Inl e)"
  by (simp add: downloadTranscoding_def bind_io_Inl)

lemma downloadTranscoding_invalid:
  "fetchAuthorizedJson w (fetch_url w) (url tc) authToken [] = (tr1, Inr file_url) \<Longrightarrow>
   URL_new w file_url = None \<Longrightarrow>
     downloadTranscoding w trackObj authToken tc = (tr1, Inl (InvalidURL file_url))"
  by (simp add: downloadTranscoding_def bind_io_Inr throw_def)

lemma downloadTranscoding_saved:
  assumes "downloadTranscoding w trackObj authToken tc = (tr, Inr y)"
  shows "\<exists>tr1 file_url parsed blob.
     fetchAuthorizedJson w (fetch_url w) (url tc) authToken [] = (tr1, Inr file_url) \<and>
     URL_new w file_url = Some parsed \<and>
     tr = tr1 @ [Fetch file_url None,
            DownloadUrl (ObjectURL blob)
              (Some (getTrackName trackObj @ ''.'' @
                 substring (URL_pathname w parsed)
                   (lastIndexOf (URL_pathname w parsed) CHR ''.'' + 1)))]"
proof -
  obtain tr1 r where f: "fetchAuthorizedJson w (fetch_url w) (url tc) authToken [] = (tr1, r)"
    by (cases "fetchAuthorizedJson w (fetch_url w) (url tc) authToken []") 
  show ?thesis
  proof (cases r)
    case (Inl e)
    with f assms downloadTranscoding_unresolved [of w tc authToken tr1 e trackObj]
    show ?thesis by simp
  next
    case (Inr file_url)
    show ?thesis
    proof (cases "URL_new w file_url")
      case None
      with f Inr assms downloadTranscoding_invalid [of w tc authToken tr1 file_url trackObj]
      show ?thesis by simp
    next
      case (Some parsed)
      with f Inr assms downloadTranscoding_resolved [of w tc authToken tr1 file_url parsed trackObj]
      show ?thesis by (auto split: option.splits)
    qed
  qed
qed

text \<open>
  Claim C3. For every track object: when the title contains the separator
  \<^verbatim>\<open>" - "\<close>, the derived name is the title unchanged; when it does not, the name
  is the uploader's user name, the separator and the title. The file name under which
  \<^verbatim>\<open>downloadTrackTranscoding\<close> saves is that name, a dot and the extension
  taken from the path of the file's URL.
\<close>

theorem filename_from_title:
  "((\<exists>p r. title trackObj = p @ '' - '' @ r) \<longrightarrow> getTrackName trackObj = title trackObj) \<and>
   ((\<nexists>p r. title trackObj = p @ '' - '' @ r) \<longrightarrow>
      getTrackName trackObj = username (user trackObj) @ '' - '' @ title trackObj) \<and>
   (\<forall>tr. downloadTrackTranscoding w trackObj authToken = (tr, Inr ()) \<longrightarrow>
      (\<exists>evs file_url parsed blob.
         URL_new w file_url = Some parsed \<and>
         tr = evs @ [Fetch file_url None,
                DownloadUrl (ObjectURL blob)
                  (Some (getTrackName trackObj @ ''.'' @
                     substring (URL_pathname w parsed)
                       (lastIndexOf (URL_pathname w parsed) CHR ''.'' + 1)))]))"
proof (intro conjI impI allI)
  assume "\<exists>p r. title trackObj = p @ '' - '' @ r"
  then show "getTrackName trackObj = title trackObj"
    by (simp only: getTrackName_def Let_def includes_str_iff [symmetric]) simp
next
  assume "\<nexists>p r. title trackObj = p @ '' - '' @ r"
  then show "getTrackName trackObj = username (user trackObj) @ '' - '' @ title trackObj"
    by (simp only: getTrackName_def Let_def includes_str_iff [symmetric]) simp
next
  fix tr
  assume a: "downloadTrackTranscoding w trackObj authToken = (tr, Inr ())"
  then obtain tc where "downloadTranscoding w trackObj authToken tc = (tr, Inr ())"
    by (auto simp: downloadTrackTranscoding_def throw_def split: option.splits)
  from downloadTranscoding_saved [OF this]
  show "\<exists>evs file_url parsed blob.
         URL_new w file_url = Some parsed \<and>
         tr = evs @ [Fetch file_url None,
                DownloadUrl (ObjectURL blob)
                  (Some (getTrackName trackObj @ ''.'' @
                     substring (URL_pathname w parsed)
                       (lastIndexOf (URL_pathname w parsed) CHR ''.'' + 1)))]"
    by blast
qed

text \<open>
  The two tracks of the specification's examples; the second is saved as
  \<^verbatim>\<open>choicescarf - Departure Remix.mp3\<close>.
\<close>

lemma demo_downloadTrackTranscoding:
  "downloadTrackTranscoding (demo_world False departure_remix) departure_remix None =
     ([Fetch ''https://api-v2.soundcloud.com/media/1/stream/progressive?client_id=L6pWQKWWm6oT4Nv0mTWEkxKypNpleA5m'' (Some []),
       Fetch ''https://cf-media.sndcdn.com/abc.128.mp3'' None,
       DownloadUrl (ObjectURL ''ID3'') (Some ''choicescarf - Departure Remix.mp3'')],
      Inr ())"
  by (simp add: downloadTrackTranscoding_def downloadTranscoding_def pickTranscoding_def js_or_def
     departure_remix_def hls_hq_def progressive_sq_def getTrackName_def demo_simps io_defs demo_defs
     lastIndexOf_def substring_def)

theorem filename_from_title_witness:
  "getTrackName night_drive = ''DJ Snake - Night Drive'' \<and>
   getTrackName departure_remix = ''choicescarf - Departure Remix'' \<and>
   downloadTrackTranscoding (demo_world False departure_remix) departure_remix None =
     ([Fetch ''https://api-v2.soundcloud.com/media/1/stream/progressive?client_id=L6pWQKWWm6oT4Nv0mTWEkxKypNpleA5m'' (Some []),
       Fetch ''https://cf-media.sndcdn.com/abc.128.mp3'' None,
       DownloadUrl (ObjectURL ''ID3'') (Some (getTrackName departure_remix @ ''.mp3''))],
      Inr ())"
proof -
  have n: "\<exists>p r. title night_drive = p @ '' - '' @ r"
    by (simp only: includes_str_iff [symmetric]) (simp add: night_drive_def)
  have d: "\<nexists>p r. title departure_remix = p @ '' - '' @ r"
    by (simp only: includes_str_iff [symmetric]) (simp add: departure_remix_def)
  from n filename_from_title [of night_drive "demo_world False night_drive" None]
  have 1: "getTrackName night_drive = ''DJ Snake - Night Drive''"
    by (simp add: night_drive_def)
  from d filename_from_title [of departure_remix "demo_world False departure_remix" None]
  have 2: "getTrackName departure_remix = ''choicescarf - Departure Remix''"
    by (simp add: departure_remix_def)
  from 1 2 demo_downloadTrackTranscoding show ?thesis by simp
qed

section \<open>Requests\<close>

lemma fetchAuthorizedJson_unfold:
  "fetchAuthorizedJson w f base tok args =
     (let hdrs = (case tok of None \<Rightarrow> [] | Some t \<Rightarrow> [(''Authorization'', ''OAuth '' @ t)]) in
      case withQuery w base
             (foldl (\<lambda>q (k, v). AList.update k v q) [(''client_id'', clientId w)] args) of
        Inl e \<Rightarrow> ([], Inl e)
      | Inr ru \<Rightarrow>
          ([Fetch ru (Some hdrs)],
           case f ru (Some hdrs) of
             None \<Rightarrow> Inl (FetchRejected ru)
           | Some resp \<Rightarrow>
               if \<not> ok resp then Inl (RequestFailed ru (status resp))
               else (case body resp of None \<Rightarrow> Inl BodyRejected | Some b \<Rightarrow> Inr b)))"
  by (simp add: fetchAuthorizedJson_def fetchJson_def bind_io_def lift_def js_fetch_def
      read_body_def throw_def ret_def Let_def split: sum.splits option.splits)

lemma fetchAuthorizedJson_events:
  "e \<in> set (fst (fetchAuthorizedJson w f base tok args)) \<Longrightarrow>
     \<exists>ru. e = Fetch ru (Some (case tok of None \<Rightarrow> []
                               | Some t \<Rightarrow> [(''Authorization'', ''OAuth '' @ t)]))"
  by (auto simp: fetchAuthorizedJson_unfold Let_def split: sum.splits)

lemma fetchAuthorizedJson_trace:
  "fst (fetchAuthorizedJson w f base tok args) = [] \<or>
   (\<exists>ru. fst (fetchAuthorizedJson w f base tok args) =
      [Fetch ru (Some (case tok of None \<Rightarrow> []
                       | Some t \<Rightarrow> [(''Authorization'', ''OAuth '' @ t)]))])"
  by (auto simp: fetchAuthorizedJson_unfold Let_def split: sum.splits)

lemma downloadTrack_resolved:
  assumes "fetchAuthorizedJson w (fetch_track w) ''https://api-v2.soundcloud.com/resolve''
             (if enableHQ w then getCookie ''oauth_token'' (document_cookie w) else None)
             [(''url'', trackUrl)] = (tr, Inr trackObj)"
  shows "downloadTrack w trackUrl =
     (if downloadable trackObj \<and> has_downloads_left trackObj
      then (tr @ fst (downloadNative w (track_id trackObj)),
            snd (downloadNative w (track_id trackObj)))
      else (tr @ fst (downloadTrackTranscoding w trackObj
                        (if enableHQ w then getCookie ''oauth_token'' (document_cookie w) else None)),
            snd (downloadTrackTranscoding w trackObj
                        (if enableHQ w then getCookie ''oauth_token'' (document_cookie w) else None))))"
  using assms by (simp add: downloadTrack_def Let_def bind_io_Inr)

lemma downloadTrack_unresolved:
  assumes "fetchAuthorizedJson w (fetch_track w) ''https://api-v2.soundcloud.com/resolve''
             (if enableHQ w then getCookie ''oauth_token'' (document_cookie w) else None)
             [(''url'', trackUrl)] = (tr, Inl e)"
  shows "downloadTrack w trackUrl = (tr, Inl e)"
  using assms by (simp add: downloadTrack_def Let_def bind_io_Inl)

text \<open>
  Claim C7. When the response to the resolve request is not \<^verbatim>\<open>ok\<close> (any status
  outside 200 to 299, such as 404), the action rejects with the error of
  \<^verbatim>\<open>fetchJson\<close> for the resolve URL and that status (the specification's
  \<^verbatim>\<open>ResolutionFailed\<close>), and the resolve request is the only thing it has done:
  no transcoding request, no fetch of a file, no save.
\<close>

theorem resolution_failure_stops:
  assumes "withQuery w ''https://api-v2.soundcloud.com/resolve''
             [(''client_id'', clientId w), (''url'', trackUrl)] = Inr ru"
    and "fetch_track w ru
           (Some (case (if enableHQ w then getCookie ''oauth_token'' (document_cookie w) else None)
                  of None \<Rightarrow> [] | Some t \<Rightarrow> [(''Authorization'', ''OAuth '' @ t)])) = Some resp"
    and "\<not> ok resp"
  shows "downloadTrack w trackUrl =
     ([Fetch ru
         (Some (case (if enableHQ w then getCookie ''oauth_token'' (document_cookie w) else None)
                of None \<Rightarrow> [] | Some t \<Rightarrow> [(''Authorization'', ''OAuth '' @ t)]))],
      Inl (RequestFailed ru (status resp)))"
proof -
  have "fetchAuthorizedJson w (fetch_track w) ''https://api-v2.soundcloud.com/resolve''
             (if enableHQ w then getCookie ''oauth_token'' (document_cookie w) else None)
             [(''url'', trackUrl)] =
     ([Fetch ru
         (Some (case (if enableHQ w then getCookie ''oauth_token'' (document_cookie w) else None)
                of None \<Rightarrow> [] | Some t \<Rightarrow> [(''Authorization'', ''OAuth '' @ t)]))],
      Inl (RequestFailed ru (status resp)))"
    using assms by (simp add: fetchAuthorizedJson_unfold Let_def)
  then show ?thesis by (rule downloadTrack_unresolved)
qed

text \<open>A resolve request answered with 404, high quality off.\<close>

theorem resolution_failure_stops_witness:
  "downloadTrack not_found ''https://soundcloud.com/choicescarf/gone'' =
     ([Fetch ''https://api-v2.soundcloud.com/resolve?client_id=L6pWQKWWm6oT4Nv0mTWEkxKypNpleA5m&url=https://soundcloud.com/choicescarf/gone'' (Some [])],
      Inl (RequestFailed ''https://api-v2.soundcloud.com/resolve?client_id=L6pWQKWWm6oT4Nv0mTWEkxKypNpleA5m&url=https://soundcloud.com/choicescarf/gone'' 404))"
proof -
  have q: "withQuery not_found ''https://api-v2.soundcloud.com/resolve''
      [(''client_id'', clientId not_found), (''url'', ''https://soundcloud.com/choicescarf/gone'')]
      = Inr ''https://api-v2.soundcloud.com/resolve?client_id=L6pWQKWWm6oT4Nv0mTWEkxKypNpleA5m&url=https://soundcloud.com/choicescarf/gone''"
    by (simp add: not_found_def withQuery_def demo_simps demo_defs)
  have f: "fetch_track not_found u i = Some \<lparr>ok = False, status = 404, body = None\<rparr>" for u i
    by (simp add: not_found_def)
  have h: "enableHQ not_found = False"
    by (simp add: not_found_def demo_simps)
  from resolution_failure_stops [OF q f] h show ?thesis by simp
qed

section \<open>The native path\<close>

lemma downloadNative_unfold:
  "downloadNative w trackId =
     (case fetchAuthorizedJson w (fetch_redirectUri w)
             (''https://api-v2.soundcloud.com/tracks/'' @ string_of_nat trackId @ ''/download'')
             None [] of
        (tr, Inl e) \<Rightarrow> (tr, Inl e)
      | (tr, Inr redirectUri) \<Rightarrow> (tr @ [DownloadUrl (Href redirectUri) None], Inr ()))"
  by (simp add: downloadNative_def bind_io_def downloadUrl_def split: prod.splits sum.splits)

lemma downloadNative_events:
  assumes "Fetch u init \<in> set (fst (downloadNative w trackId))"
  shows "init = Some []"
proof -
  let ?m = "fetchAuthorizedJson w (fetch_redirectUri w)
             (''https://api-v2.soundcloud.com/tracks/'' @ string_of_nat trackId @ ''/download'')
             None []"
  from assms have "Fetch u init \<in> set (fst ?m)"
    by (cases ?m; cases "snd ?m") (auto simp: downloadNative_unfold)
  from fetchAuthorizedJson_events [OF this] show ?thesis by simp
qed

lemma withQuery_world:
  "URL_new w' = URL_new w \<Longrightarrow> searchParams_append w' = searchParams_append w \<Longrightarrow>
   URL_toString w' = URL_toString w \<Longrightarrow> withQuery w' = withQuery w"
  by (rule ext, rule ext) (simp add: withQuery_def split: option.splits)

lemma fetchAuthorizedJson_world:
  "URL_new w' = URL_new w \<Longrightarrow> searchParams_append w' = searchParams_append w \<Longrightarrow>
   URL_toString w' = URL_toString w \<Longrightarrow> clientId w' = clientId w \<Longrightarrow>
   fetchAuthorizedJson w' = fetchAuthorizedJson w"
  by (rule ext, rule ext, rule ext, rule ext)
    (simp add: fetchAuthorizedJson_def fetchJson_def withQuery_world [of w' w])

lemma downloadNative_world:
  "URL_new w' = URL_new w \<Longrightarrow> searchParams_append w' = searchParams_append w \<Longrightarrow>
   URL_toString w' = URL_toString w \<Longrightarrow> clientId w' = clientId w \<Longrightarrow>
   fetch_redirectUri w' = fetch_redirectUri w \<Longrightarrow>
   downloadNative w' = downloadNative w"
  by (rule ext) (simp add: downloadNative_def fetchAuthorizedJson_world [of w' w])

lemma downloadNative_same_world:
  "downloadNative (w\<lparr>enableHQ := b, document_cookie := c\<rparr>) trackId = downloadNative w trackId"
  by (simp add: downloadNative_world [of "w\<lparr>enableHQ := b, document_cookie := c\<rparr>" w])

section \<open>The shape of an action\<close>

lemma downloadTranscoding_world:
  assumes "URL_new w' = URL_new w" "searchParams_append w' = searchParams_append w"
    "URL_toString w' = URL_toString w" "URL_pathname w' = URL_pathname w"
    "clientId w' = clientId w" "fetch_url w' = fetch_url w" "fetch_blob w' = fetch_blob w"
  shows "downloadTranscoding w' trackObj tok tc = downloadTranscoding w trackObj tok tc"
  unfolding downloadTranscoding_def fetchAuthorizedJson_world [of w' w, OF assms(1,2,3,5)] assms
  by (rule refl)

lemma downloadTrackTranscoding_world:
  assumes "URL_new w' = URL_new w" "searchParams_append w' = searchParams_append w"
    "URL_toString w' = URL_toString w" "URL_pathname w' = URL_pathname w"
    "clientId w' = clientId w" "fetch_url w' = fetch_url w" "fetch_blob w' = fetch_blob w"
  shows "downloadTrackTranscoding w' trackObj tok = downloadTrackTranscoding w trackObj tok"
  unfolding downloadTrackTranscoding_def downloadTranscoding_world [of w' w, OF assms]
  by (rule refl)

lemma downloadTrack_without_cookie:
  assumes "\<not> enableHQ w"
  shows "downloadTrack (w\<lparr>document_cookie := c\<rparr>) trackUrl = downloadTrack w trackUrl"
proof -
  let ?w = "w\<lparr>document_cookie := c\<rparr>"
  have 1: "fetchAuthorizedJson ?w = fetchAuthorizedJson w"
    by (simp add: fetchAuthorizedJson_world [of ?w w])
  have 2: "downloadNative ?w = downloadNative w"
    by (simp add: downloadNative_world [of ?w w])
  have 3: "downloadTrackTranscoding ?w t tok = downloadTrackTranscoding w t tok" for t tok
    by (simp add: downloadTrackTranscoding_world [of ?w w])
  show ?thesis
    using assms unfolding downloadTrack_def 1 2 3 by simp
qed

lemma downloadTranscoding_cases:
  obtains (unresolved) tr1 e where
      "fetchAuthorizedJson w (fetch_url w) (url tc) tok [] = (tr1, Inl e)"
      "downloadTranscoding w trackObj tok tc = (tr1, Inl e)"
  | (invalid) tr1 file_url where
      "fetchAuthorizedJson w (fetch_url w) (url tc) tok [] = (tr1, Inr file_url)"
      "URL_new w file_url = None"
      "downloadTranscoding w trackObj tok tc = (tr1, Inl (InvalidURL file_url))"
  | (fetched) tr1 file_url parsed tr2 r where
      "fetchAuthorizedJson w (fetch_url w) (url tc) tok [] = (tr1, Inr file_url)"
      "URL_new w file_url = Some parsed"
      "downloadTranscoding w trackObj tok tc = (tr1 @ Fetch file_url None # tr2, r)"
      "tr2 = [] \<or> (\<exists>h f. tr2 = [DownloadUrl h f])"
proof -
  obtain tr1 r where f: "fetchAuthorizedJson w (fetch_url w) (url tc) tok [] = (tr1, r)"
    by (cases "fetchAuthorizedJson w (fetch_url w) (url tc) tok []")
  show thesis
  proof (cases r)
    case (Inl e)
    with f downloadTranscoding_unresolved [of w tc tok tr1 e trackObj] unresolved
    show thesis by simp
  next
    case (Inr file_url)
    show thesis
    proof (cases "URL_new w file_url")
      case None
      with f Inr downloadTranscoding_invalid [of w tc tok tr1 file_url trackObj] invalid
      show thesis by simp
    next
      case (Some parsed)
      from f Inr have f': "fetchAuthorizedJson w (fetch_url w) (url tc) tok [] = (tr1, Inr file_url)"
        by simp
      from downloadTranscoding_resolved [OF f' Some, of trackObj]
      have "\<exists>tr2 r'. downloadTranscoding w trackObj tok tc = (tr1 @ Fetch file_url None # tr2, r')
          \<and> (tr2 = [] \<or> (\<exists>h f. tr2 = [DownloadUrl h f]))"
        by (auto split: option.splits)
      with f' Some fetched show thesis by blast
    qed
  qed
qed

lemma downloadTranscoding_events:
  assumes "Fetch u init \<in> set (fst (downloadTranscoding w trackObj tok tc))"
  shows "init = None \<or>
         init = Some (case tok of None \<Rightarrow> [] | Some t \<Rightarrow> [(''Authorization'', ''OAuth '' @ t)])"
proof (cases rule: downloadTranscoding_cases [of w tc tok trackObj])
  case (unresolved tr1 e)
  with assms have "Fetch u init \<in> set (fst (fetchAuthorizedJson w (fetch_url w) (url tc) tok []))"
    by simp
  from fetchAuthorizedJson_events [OF this] show ?thesis by simp
next
  case (invalid tr1 file_url)
  with assms have "Fetch u init \<in> set (fst (fetchAuthorizedJson w (fetch_url w) (url tc) tok []))"
    by simp
  from fetchAuthorizedJson_events [OF this] show ?thesis by simp
next
  case (fetched tr1 file_url parsed tr2 r)
  with assms consider
    "Fetch u init \<in> set (fst (fetchAuthorizedJson w (fetch_url w) (url tc) tok []))"
    | "init = None"
    by auto
  then show ?thesis
  proof cases
    case 1
    from fetchAuthorizedJson_events [OF this] show ?thesis by simp
  next
    case 2
    then show ?thesis by simp
  qed
qed

lemma downloadTrackTranscoding_events:
  assumes "Fetch u init \<in> set (fst (downloadTrackTranscoding w trackObj tok))"
  shows "init = None \<or>
         init = Some (case tok of None \<Rightarrow> [] | Some t \<Rightarrow> [(''Authorization'', ''OAuth '' @ t)])"
proof (cases "js_or (pickTranscoding trackObj ''hq'') (pickTranscoding trackObj ''sq'')")
  case None
  with assms show ?thesis by (simp add: downloadTrackTranscoding_def throw_def)
next
  case (Some tc)
  with assms have "Fetch u init \<in> set (fst (downloadTranscoding w trackObj tok tc))"
    by (simp add: downloadTrackTranscoding_def)
  then show ?thesis by (rule downloadTranscoding_events)
qed

lemma downloadTrack_cases:
  obtains (unresolved) tr e where
      "fetchAuthorizedJson w (fetch_track w) ''https://api-v2.soundcloud.com/resolve''
         (if enableHQ w then getCookie ''oauth_token'' (document_cookie w) else None)
         [(''url'', trackUrl)] = (tr, Inl e)"
      "downloadTrack w trackUrl = (tr, Inl e)"
  | (native) tr trackObj where
      "fetchAuthorizedJson w (fetch_track w) ''https://api-v2.soundcloud.com/resolve''
         (if enableHQ w then getCookie ''oauth_token'' (document_cookie w) else None)
         [(''url'', trackUrl)] = (tr, Inr trackObj)"
      "downloadable trackObj" "has_downloads_left trackObj"
      "downloadTrack w trackUrl =
         (tr @ fst (downloadNative w (track_id trackObj)),
          snd (downloadNative w (track_id trackObj)))"
  | (transcoded) tr trackObj where
      "fetchAuthorizedJson w (fetch_track w) ''https://api-v2.soundcloud.com/resolve''
         (if enableHQ w then getCookie ''oauth_token'' (document_cookie w) else None)
         [(''url'', trackUrl)] = (tr, Inr trackObj)"
      "\<not> (downloadable trackObj \<and> has_downloads_left trackObj)"
      "downloadTrack w trackUrl =
         (tr @ fst (downloadTrackTranscoding w trackObj
                      (if enableHQ w then getCookie ''oauth_token'' (document_cookie w) else None)),
          snd (downloadTrackTranscoding w trackObj
                      (if enableHQ w then getCookie ''oauth_token'' (document_cookie w) else None)))"
proof -
  let ?m = "fetchAuthorizedJson w (fetch_track w) ''https://api-v2.soundcloud.com/resolve''
         (if enableHQ w then getCookie ''oauth_token'' (document_cookie w) else None)
         [(''url'', trackUrl)]"
  obtain tr r where f: "?m = (tr, r)" by (cases ?m)
  show thesis
  proof (cases r)
    case (Inl e)
    with f have f': "?m = (tr, Inl e)" by simp
    from downloadTrack_unresolved [OF f'] f' unresolved show thesis by blast
  next
    case (Inr trackObj)
    with f have f': "?m = (tr, Inr trackObj)" by simp
    show thesis
    proof (cases "downloadable trackObj \<and> has_downloads_left trackObj")
      case True
      with downloadTrack_resolved [OF f'] f' native show thesis by simp
    next
      case False
      with downloadTrack_resolved [OF f'] f' transcoded [of tr trackObj] show thesis by simp
    qed
  qed
qed

section \<open>Counting requests\<close>

lemma fetch_urls_append: "fetch_urls (xs @ ys) = fetch_urls xs @ fetch_urls ys"
  by (induction xs rule: fetch_urls.induct) auto

lemma count_api_trace:
  "count_list (fst (fetchAuthorizedJson w f base tok args)) (Fetch u None) = 0"
  using fetchAuthorizedJson_trace [of w f base tok args] by auto

lemma count_downloadTranscoding:
  "count_list (fst (downloadTranscoding w trackObj tok tc)) (Fetch u None) \<le> 1"
proof (cases rule: downloadTranscoding_cases [of w tc tok trackObj])
  case (unresolved tr1 e)
  with count_api_trace [of w "fetch_url w" "url tc" tok "[]" u] show ?thesis by simp
next
  case (invalid tr1 file_url)
  with count_api_trace [of w "fetch_url w" "url tc" tok "[]" u] show ?thesis by simp
next
  case (fetched tr1 file_url parsed tr2 r)
  with count_api_trace [of w "fetch_url w" "url tc" tok "[]" u] show ?thesis by auto
qed

lemma count_downloadTrackTranscoding:
  "count_list (fst (downloadTrackTranscoding w trackObj tok)) (Fetch u None) \<le> 1"
  using count_downloadTranscoding [of w trackObj tok _ u]
  by (simp add: downloadTrackTranscoding_def throw_def split: option.splits)

lemma count_downloadNative:
  "count_list (fst (downloadNative w trackId)) (Fetch u None) = 0"
  using downloadNative_events [of u None w trackId] by (auto simp: count_list_0_iff)

lemma count_downloadTrack:
  "count_list (fst (downloadTrack w trackUrl)) (Fetch u None) \<le> 1"
proof (cases rule: downloadTrack_cases [of w trackUrl])
  case (unresolved tr e)
  from unresolved(1) count_api_trace [of w "fetch_track w" _ _ _ u]
  have "count_list tr (Fetch u None) = 0" by (metis fst_conv)
  with unresolved(2) show ?thesis by simp
next
  case (native tr trackObj)
  from native(1) count_api_trace [of w "fetch_track w" _ _ _ u]
  have "count_list tr (Fetch u None) = 0" by (metis fst_conv)
  with native(4) count_downloadNative [of w "track_id trackObj" u] show ?thesis by simp
next
  case (transcoded tr trackObj)
  from transcoded(1) count_api_trace [of w "fetch_track w" _ _ _ u]
  have "count_list tr (Fetch u None) = 0" by (metis fst_conv)
  with transcoded(3) count_downloadTrackTranscoding [of w trackObj _ u] show ?thesis by simp
qed

section \<open>Two actions on the concrete world\<close>

lemma demo_cookie:
  "getCookie ''oauth_token'' ''sc_anonymous_id=4711; oauth_token=2-29-secret'' = Some ''2-29-secret''"
  by (simp add: getCookie_def cookie_value_at_def)

lemma demo_resolve:
  "fetchAuthorizedJson (demo_world hq t) (fetch_track (demo_world hq t))
     ''https://api-v2.soundcloud.com/resolve''
     (if enableHQ (demo_world hq t)
      then getCookie ''oauth_token'' (document_cookie (demo_world hq t)) else None)
     [(''url'', ''https://soundcloud.com/a/b'')] =
   ([Fetch ''https://api-v2.soundcloud.com/resolve?client_id=L6pWQKWWm6oT4Nv0mTWEkxKypNpleA5m&url=https://soundcloud.com/a/b''
       (Some (if hq then [(''Authorization'', ''OAuth 2-29-secret'')] else []))],
    Inr t)"
  by (simp add: fetchAuthorizedJson_unfold withQuery_def demo_simps demo_defs demo_cookie)

lemma demo_finalize:
  "fetchAuthorizedJson (demo_world hq t) (fetch_url (demo_world hq t)) (url progressive_sq)
     (if enableHQ (demo_world hq t)
      then getCookie ''oauth_token'' (document_cookie (demo_world hq t)) else None) [] =
   ([Fetch ''https://api-v2.soundcloud.com/media/1/stream/progressive?client_id=L6pWQKWWm6oT4Nv0mTWEkxKypNpleA5m''
       (Some (if hq then [(''Authorization'', ''OAuth 2-29-secret'')] else []))],
    Inr ''https://cf-media.sndcdn.com/abc.128.mp3'')"
  by (simp add: fetchAuthorizedJson_unfold withQuery_def demo_simps demo_defs demo_cookie
      progressive_sq_def)

lemma demo_native:
  "downloadNative (demo_world hq t) 7 =
     ([Fetch ''https://api-v2.soundcloud.com/tracks/7/download?client_id=L6pWQKWWm6oT4Nv0mTWEkxKypNpleA5m''
         (Some []),
       DownloadUrl (Href ''https://cf-media.sndcdn.com/original.wav'') None],
      Inr ())"
  by (simp add: downloadNative_unfold fetchAuthorizedJson_unfold withQuery_def demo_simps demo_defs
      string_of_nat.simps [of 7])

lemma demo_transcoded:
  "downloadTrack (demo_world hq departure_remix) ''https://soundcloud.com/a/b'' =
     ([Fetch ''https://api-v2.soundcloud.com/resolve?client_id=L6pWQKWWm6oT4Nv0mTWEkxKypNpleA5m&url=https://soundcloud.com/a/b''
         (Some (if hq then [(''Authorization'', ''OAuth 2-29-secret'')] else [])),
       Fetch ''https://api-v2.soundcloud.com/media/1/stream/progressive?client_id=L6pWQKWWm6oT4Nv0mTWEkxKypNpleA5m''
         (Some (if hq then [(''Authorization'', ''OAuth 2-29-secret'')] else [])),
       Fetch ''https://cf-media.sndcdn.com/abc.128.mp3'' None,
       DownloadUrl (ObjectURL ''ID3'') (Some ''choicescarf - Departure Remix.mp3'')],
      Inr ())"
proof -
  have s: "js_or (pickTranscoding departure_remix ''hq'') (pickTranscoding departure_remix ''sq'')
      = Some progressive_sq"
    by (simp add: pickTranscoding_def js_or_def departure_remix_def hls_hq_def progressive_sq_def)
  have p: "URL_new (demo_world hq departure_remix) ''https://cf-media.sndcdn.com/abc.128.mp3''
      = Some (''https://cf-media.sndcdn.com/abc.128.mp3'', [])"
    by (simp add: demo_simps demo_defs)
  have n: "getTrackName departure_remix = ''choicescarf - Departure Remix''"
    by (simp add: getTrackName_def departure_remix_def)
  have e: "substring (URL_pathname (demo_world hq departure_remix)
                (''https://cf-media.sndcdn.com/abc.128.mp3'', []))
             (lastIndexOf (URL_pathname (demo_world hq departure_remix)
                (''https://cf-media.sndcdn.com/abc.128.mp3'', [])) CHR ''.'' + 1) = ''mp3''"
    by (simp add: demo_simps demo_defs lastIndexOf_def substring_def)
  have "downloadTranscoding (demo_world hq departure_remix) departure_remix
      (if enableHQ (demo_world hq departure_remix)
       then getCookie ''oauth_token'' (document_cookie (demo_world hq departure_remix)) else None)
      progressive_sq =
     ([Fetch ''https://api-v2.soundcloud.com/media/1/stream/progressive?client_id=L6pWQKWWm6oT4Nv0mTWEkxKypNpleA5m''
         (Some (if hq then [(''Authorization'', ''OAuth 2-29-secret'')] else [])),
       Fetch ''https://cf-media.sndcdn.com/abc.128.mp3'' None,
       DownloadUrl (ObjectURL ''ID3'') (Some ''choicescarf - Departure Remix.mp3'')],
      Inr ())"
    unfolding downloadTranscoding_resolved [OF demo_finalize p] e n
    by (simp add: demo_simps)
  with s have "downloadTrackTranscoding (demo_world hq departure_remix) departure_remix
      (if enableHQ (demo_world hq departure_remix)
       then getCookie ''oauth_token'' (document_cookie (demo_world hq departure_remix)) else None)
      =
     ([Fetch ''https://api-v2.soundcloud.com/media/1/stream/progressive?client_id=L6pWQKWWm6oT4Nv0mTWEkxKypNpleA5m''
         (Some (if hq then [(''Authorization'', ''OAuth 2-29-secret'')] else [])),
       Fetch ''https://cf-media.sndcdn.com/abc.128.mp3'' None,
       DownloadUrl (ObjectURL ''ID3'') (Some ''choicescarf - Departure Remix.mp3'')],
      Inr ())"
    by (simp add: downloadTrackTranscoding_def)
  with downloadTrack_resolved [OF demo_resolve, of hq departure_remix]
  show ?thesis by (simp add: departure_remix_def)
qed

section \<open>Native download and the session token\<close>

text \<open>
  Claim C1. For every track object that the resolve request returns with
  \<^verbatim>\<open>downloadable\<close> and \<^verbatim>\<open>has_downloads_left\<close> both true,
  \<^verbatim>\<open>downloadTrack\<close> continues with \<^verbatim>\<open>downloadNative\<close> on the track's id and
  with nothing else. It never looks at the transcodings: were the \<^verbatim>\<open>media\<close> member
  of the answer replaced by anything at all, the action would do and return the same.
\<close>

theorem native_ignores_transcodings:
  assumes "fetchAuthorizedJson w (fetch_track w) ''https://api-v2.soundcloud.com/resolve''
             (if enableHQ w then getCookie ''oauth_token'' (document_cookie w) else None)
             [(''url'', trackUrl)] = (tr, Inr trackObj)"
    and "downloadable trackObj" and "has_downloads_left trackObj"
  shows "downloadTrack w trackUrl =
           (tr @ fst (downloadNative w (track_id trackObj)),
            snd (downloadNative w (track_id trackObj))) \<and>
         (\<forall>g. downloadTrack
                (w\<lparr>fetch_track := \<lambda>u init.
                      map_option (\<lambda>r. r\<lparr>body := map_option (\<lambda>t. t\<lparr>media := g t\<rparr>) (body r)\<rparr>)
                        (fetch_track w u init)\<rparr>) trackUrl
              = downloadTrack w trackUrl)"
proof (intro conjI allI)
  show 1: "downloadTrack w trackUrl =
           (tr @ fst (downloadNative w (track_id trackObj)),
            snd (downloadNative w (track_id trackObj)))"
    using downloadTrack_resolved [OF assms(1)] assms(2,3) by simp
  fix g :: "track \<Rightarrow> media_obj"
  let ?w = "w\<lparr>fetch_track := \<lambda>u init.
                      map_option (\<lambda>r. r\<lparr>body := map_option (\<lambda>t. t\<lparr>media := g t\<rparr>) (body r)\<rparr>)
                        (fetch_track w u init)\<rparr>"
  have q: "withQuery ?w = withQuery w" by (simp add: withQuery_world [of ?w w])
  have "fetchAuthorizedJson ?w (fetch_track ?w) ''https://api-v2.soundcloud.com/resolve''
             (if enableHQ ?w then getCookie ''oauth_token'' (document_cookie ?w) else None)
             [(''url'', trackUrl)] = (tr, Inr (trackObj\<lparr>media := g trackObj\<rparr>))"
    using assms(1) unfolding fetchAuthorizedJson_unfold q Let_def
    by (auto split: sum.splits option.splits if_splits)
  from downloadTrack_resolved [OF this] assms(2,3)
  have "downloadTrack ?w trackUrl =
           (tr @ fst (downloadNative ?w (track_id trackObj)),
            snd (downloadNative ?w (track_id trackObj)))"
    by simp
  moreover have "downloadNative ?w (track_id trackObj) = downloadNative w (track_id trackObj)"
    by (simp add: downloadNative_world [of ?w w])
  ultimately show "downloadTrack ?w trackUrl = downloadTrack w trackUrl"
    using 1 by simp
qed

text \<open>
  The natively downloadable track of the specification's example, with three
  transcodings and with none.
\<close>

theorem native_ignores_transcodings_witness:
  "downloadable night_drive \<and> has_downloads_left night_drive \<and>
   length (transcodings (media night_drive)) = 3 \<and>
   downloadTrack (demo_world True night_drive) ''https://soundcloud.com/a/b'' =
     ([Fetch ''https://api-v2.soundcloud.com/resolve?client_id=L6pWQKWWm6oT4Nv0mTWEkxKypNpleA5m&url=https://soundcloud.com/a/b''
         (Some [(''Authorization'', ''OAuth 2-29-secret'')]),
       Fetch ''https://api-v2.soundcloud.com/tracks/7/download?client_id=L6pWQKWWm6oT4Nv0mTWEkxKypNpleA5m''
         (Some []),
       DownloadUrl (Href ''https://cf-media.sndcdn.com/original.wav'') None],
      Inr ()) \<and>
   downloadTrack
     ((demo_world True night_drive)
        \<lparr>fetch_track := \<lambda>u init.
           map_option (\<lambda>r. r\<lparr>body := map_option (\<lambda>t. t\<lparr>media := \<lparr>transcodings = []\<rparr>\<rparr>) (body r)\<rparr>)
             (fetch_track (demo_world True night_drive) u init)\<rparr>)
     ''https://soundcloud.com/a/b''
   = downloadTrack (demo_world True night_drive) ''https://soundcloud.com/a/b''"
proof -
  have f: "downloadable night_drive" "has_downloads_left night_drive"
    "length (transcodings (media night_drive)) = 3" "track_id night_drive = 7"
    by (simp_all add: night_drive_def)
  from native_ignores_transcodings [OF demo_resolve [of True night_drive] f(1,2)] f
    demo_native [of True night_drive]
  show ?thesis by simp
qed

text \<open>
  Claim C10. The request of \<^verbatim>\<open>downloadNative\<close> never carries the session token:
  what \<^verbatim>\<open>downloadNative\<close> does is the same whatever the preference and the cookie
  are, every request it sends has an empty header object, and so has every request that
  \<^verbatim>\<open>downloadTrack\<close> sends after the resolve request when the track takes the native
  path.
\<close>

theorem native_request_without_token:
  "downloadNative (w\<lparr>enableHQ := b, document_cookie := c\<rparr>) trackId = downloadNative w trackId \<and>
   (\<forall>u init. Fetch u init \<in> set (fst (downloadNative w trackId)) \<longrightarrow> init = Some []) \<and>
   (\<forall>tr trackObj trackUrl.
      fetchAuthorizedJson w (fetch_track w) ''https://api-v2.soundcloud.com/resolve''
        (if enableHQ w then getCookie ''oauth_token'' (document_cookie w) else None)
        [(''url'', trackUrl)] = (tr, Inr trackObj) \<and>
      downloadable trackObj \<and> has_downloads_left trackObj \<longrightarrow>
      (\<exists>tr'. fst (downloadTrack w trackUrl) = tr @ tr' \<and>
         (\<forall>u init. Fetch u init \<in> set tr' \<longrightarrow> init = Some [])))"
proof (intro conjI allI impI)
  show "downloadNative (w\<lparr>enableHQ := b, document_cookie := c\<rparr>) trackId = downloadNative w trackId"
    by (rule downloadNative_same_world)
next
  fix u init
  assume "Fetch u init \<in> set (fst (downloadNative w trackId))"
  then show "init = Some []" by (rule downloadNative_events)
next
  fix tr trackObj trackUrl
  assume a: "fetchAuthorizedJson w (fetch_track w) ''https://api-v2.soundcloud.com/resolve''
        (if enableHQ w then getCookie ''oauth_token'' (document_cookie w) else None)
        [(''url'', trackUrl)] = (tr, Inr trackObj) \<and>
      downloadable trackObj \<and> has_downloads_left trackObj"
  then have "fst (downloadTrack w trackUrl) = tr @ fst (downloadNative w (track_id trackObj))"
    using downloadTrack_resolved [of w trackUrl tr trackObj] by simp
  moreover have "\<forall>u init. Fetch u init \<in> set (fst (downloadNative w (track_id trackObj)))
      \<longrightarrow> init = Some []"
    using downloadNative_events by blast
  ultimately show "\<exists>tr'. fst (downloadTrack w trackUrl) = tr @ tr' \<and>
         (\<forall>u init. Fetch u init \<in> set tr' \<longrightarrow> init = Some [])"
    by blast
qed

text \<open>High quality is on and the session cookie is set.\<close>

theorem native_request_without_token_witness:
  "enableHQ (demo_world True night_drive) \<and>
   getCookie ''oauth_token'' (document_cookie (demo_world True night_drive)) = Some ''2-29-secret'' \<and>
   downloadable night_drive \<and> has_downloads_left night_drive \<and>
   downloadNative (demo_world True night_drive) (track_id night_drive) =
     ([Fetch ''https://api-v2.soundcloud.com/tracks/7/download?client_id=L6pWQKWWm6oT4Nv0mTWEkxKypNpleA5m''
         (Some []),
       DownloadUrl (Href ''https://cf-media.sndcdn.com/original.wav'') None],
      Inr ()) \<and>
   downloadNative ((demo_world True night_drive)\<lparr>enableHQ := False, document_cookie := []\<rparr>)
     (track_id night_drive) = downloadNative (demo_world True night_drive) (track_id night_drive)"
  using native_request_without_token [where w = "demo_world True night_drive" and b = False
      and c = "[]" and trackId = "track_id night_drive"]
    demo_native [of True night_drive]
  by (simp add: demo_simps demo_cookie night_drive_def)

text \<open>
  Claim C8. The token is the value of the \<^verbatim>\<open>oauth_token\<close> cookie as it is when the
  action runs, and it is read only when the preference is on. With the preference off,
  the whole action (its requests, its save and its outcome) is the same for every
  cookie string. Every request of an action has no \<^verbatim>\<open>init\<close>, or an empty header
  object, or (with the preference on and the cookie set) the one header
  \<^verbatim>\<open>Authorization: OAuth <cookie value>\<close>. The script has no other effect than its
  requests and the save, so the token is stored nowhere.
\<close>

theorem token_only_when_opted_in:
  "(\<not> enableHQ w \<longrightarrow>
      (\<forall>c. downloadTrack (w\<lparr>document_cookie := c\<rparr>) trackUrl = downloadTrack w trackUrl)) \<and>
   (\<forall>u init. Fetch u init \<in> set (fst (downloadTrack w trackUrl)) \<longrightarrow>
      init = None \<or> init = Some [] \<or>
      (enableHQ w \<and>
       (\<exists>tok. getCookie ''oauth_token'' (document_cookie w) = Some tok \<and>
              init = Some [(''Authorization'', ''OAuth '' @ tok)])))"
proof (intro conjI allI impI)
  fix c
  assume "\<not> enableHQ w"
  then show "downloadTrack (w\<lparr>document_cookie := c\<rparr>) trackUrl = downloadTrack w trackUrl"
    by (rule downloadTrack_without_cookie)
next
  fix u init
  let ?tok = "if enableHQ w then getCookie ''oauth_token'' (document_cookie w) else None"
  let ?hdrs = "Some (case ?tok of None \<Rightarrow> [] | Some t \<Rightarrow> [(''Authorization'', ''OAuth '' @ t)])"
  assume a: "Fetch u init \<in> set (fst (downloadTrack w trackUrl))"
  have "init = None \<or> init = Some [] \<or> init = ?hdrs"
  proof (cases rule: downloadTrack_cases [of w trackUrl])
    case (unresolved tr e)
    with a have "Fetch u init \<in> set (fst (fetchAuthorizedJson w (fetch_track w)
        ''https://api-v2.soundcloud.com/resolve'' ?tok [(''url'', trackUrl)]))"
      by simp
    from fetchAuthorizedJson_events [OF this] show ?thesis by simp
  next
    case (native tr trackObj)
    with a consider "Fetch u init \<in> set (fst (fetchAuthorizedJson w (fetch_track w)
        ''https://api-v2.soundcloud.com/resolve'' ?tok [(''url'', trackUrl)]))"
      | "Fetch u init \<in> set (fst (downloadNative w (track_id trackObj)))"
      by auto
    then show ?thesis
    proof cases
      case 1
      from fetchAuthorizedJson_events [OF this] show ?thesis by simp
    next
      case 2
      from downloadNative_events [OF this] show ?thesis by simp
    qed
  next
    case (transcoded tr trackObj)
    with a consider "Fetch u init \<in> set (fst (fetchAuthorizedJson w (fetch_track w)
        ''https://api-v2.soundcloud.com/resolve'' ?tok [(''url'', trackUrl)]))"
      | "Fetch u init \<in> set (fst (downloadTrackTranscoding w trackObj ?tok))"
      by auto
    then show ?thesis
    proof cases
      case 1
      from fetchAuthorizedJson_events [OF this] show ?thesis by simp
    next
      case 2
      from downloadTrackTranscoding_events [OF this] show ?thesis by blast
    qed
  qed
  then show "init = None \<or> init = Some [] \<or>
      (enableHQ w \<and>
       (\<exists>tok. getCookie ''oauth_token'' (document_cookie w) = Some tok \<and>
              init = Some [(''Authorization'', ''OAuth '' @ tok)]))"
    by (cases "enableHQ w"; cases "getCookie ''oauth_token'' (document_cookie w)") auto
qed

text \<open>
  The same action with the preference off under two cookie strings, and with the
  preference on.
\<close>

theorem token_only_when_opted_in_witness:
  "\<not> enableHQ (demo_world False departure_remix) \<and>
   downloadTrack ((demo_world False departure_remix)\<lparr>document_cookie := ''oauth_token=1-1-other''\<rparr>)
       ''https://soundcloud.com/a/b''
     = downloadTrack (demo_world False departure_remix) ''https://soundcloud.com/a/b'' \<and>
   fst (downloadTrack (demo_world False departure_remix) ''https://soundcloud.com/a/b'') =
     [Fetch ''https://api-v2.soundcloud.com/resolve?client_id=L6pWQKWWm6oT4Nv0mTWEkxKypNpleA5m&url=https://soundcloud.com/a/b''
         (Some []),
       Fetch ''https://api-v2.soundcloud.com/media/1/stream/progressive?client_id=L6pWQKWWm6oT4Nv0mTWEkxKypNpleA5m''
         (Some []),
       Fetch ''https://cf-media.sndcdn.com/abc.128.mp3'' None,
       DownloadUrl (ObjectURL ''ID3'') (Some ''choicescarf - Departure Remix.mp3'')] \<and>
   getCookie ''oauth_token'' (document_cookie (demo_world True departure_remix))
     = Some ''2-29-secret'' \<and>
   Fetch ''https://api-v2.soundcloud.com/resolve?client_id=L6pWQKWWm6oT4Nv0mTWEkxKypNpleA5m&url=https://soundcloud.com/a/b''
       (Some [(''Authorization'', ''OAuth 2-29-secret'')])
     \<in> set (fst (downloadTrack (demo_world True departure_remix) ''https://soundcloud.com/a/b''))"
  using token_only_when_opted_in [of "demo_world False departure_remix" "''https://soundcloud.com/a/b''"]
    demo_transcoded [of False] demo_transcoded [of True]
  by (simp add: demo_simps demo_cookie)

text \<open>
  Claim C9. When the action takes the transcoding path, the request for the chosen
  transcoding's URL yields the file's URL and that URL parses, then the action fetches the
  file's URL right after that request, and in the whole action the call
  \<^verbatim>\<open>fetch(url)\<close> on the file's URL happens exactly once; when the two API requests
  went to other URLs, the file's URL is requested exactly once among all requests. No
  action, whatever its course, makes the same plain \<^verbatim>\<open>fetch(url)\<close> twice.
\<close>

theorem file_fetched_once:
  "(\<forall>tr0 trackObj tc tr1 file_url parsed.
      fetchAuthorizedJson w (fetch_track w) ''https://api-v2.soundcloud.com/resolve''
        (if enableHQ w then getCookie ''oauth_token'' (document_cookie w) else None)
        [(''url'', trackUrl)] = (tr0, Inr trackObj) \<and>
      \<not> (downloadable trackObj \<and> has_downloads_left trackObj) \<and>
      js_or (pickTranscoding trackObj ''hq'') (pickTranscoding trackObj ''sq'') = Some tc \<and>
      fetchAuthorizedJson w (fetch_url w) (url tc)
        (if enableHQ w then getCookie ''oauth_token'' (document_cookie w) else None) []
        = (tr1, Inr file_url) \<and>
      URL_new w file_url = Some parsed \<longrightarrow>
      (\<exists>tr2. fst (downloadTrack w trackUrl) = tr0 @ tr1 @ Fetch file_url None # tr2) \<and>
      count_list (fst (downloadTrack w trackUrl)) (Fetch file_url None) = 1 \<and>
      (file_url \<notin> set (fetch_urls (tr0 @ tr1)) \<longrightarrow>
         count_list (fetch_urls (fst (downloadTrack w trackUrl))) file_url = 1)) \<and>
   (\<forall>u. count_list (fst (downloadTrack w trackUrl)) (Fetch u None) \<le> 1)"
proof (intro conjI allI impI)
  fix u
  show "count_list (fst (downloadTrack w trackUrl)) (Fetch u None) \<le> 1"
    by (rule count_downloadTrack)
next
  fix tr0 trackObj tc tr1 file_url parsed
  let ?tok = "if enableHQ w then getCookie ''oauth_token'' (document_cookie w) else None"
  assume a: "fetchAuthorizedJson w (fetch_track w) ''https://api-v2.soundcloud.com/resolve''
        ?tok [(''url'', trackUrl)] = (tr0, Inr trackObj) \<and>
      \<not> (downloadable trackObj \<and> has_downloads_left trackObj) \<and>
      js_or (pickTranscoding trackObj ''hq'') (pickTranscoding trackObj ''sq'') = Some tc \<and>
      fetchAuthorizedJson w (fetch_url w) (url tc) ?tok [] = (tr1, Inr file_url) \<and>
      URL_new w file_url = Some parsed"
  then have r: "fetchAuthorizedJson w (fetch_track w) ''https://api-v2.soundcloud.com/resolve''
        ?tok [(''url'', trackUrl)] = (tr0, Inr trackObj)"
    and n: "\<not> (downloadable trackObj \<and> has_downloads_left trackObj)"
    and j: "js_or (pickTranscoding trackObj ''hq'') (pickTranscoding trackObj ''sq'') = Some tc"
    and f: "fetchAuthorizedJson w (fetch_url w) (url tc) ?tok [] = (tr1, Inr file_url)"
    and p: "URL_new w file_url = Some parsed"
    by simp_all
  from downloadTranscoding_resolved [OF f p, of trackObj]
  obtain tr2 res where d: "downloadTranscoding w trackObj ?tok tc = (tr1 @ Fetch file_url None # tr2, res)"
    and t2: "tr2 = [] \<or> (\<exists>h fn. tr2 = [DownloadUrl h fn])"
    by (cases "fetch_blob w file_url None"; cases "body (the (fetch_blob w file_url None))") auto
  from j d have "downloadTrackTranscoding w trackObj ?tok = (tr1 @ Fetch file_url None # tr2, res)"
    by (simp add: downloadTrackTranscoding_def)
  with downloadTrack_resolved [OF r] n
  have whole: "fst (downloadTrack w trackUrl) = tr0 @ tr1 @ Fetch file_url None # tr2"
    by simp
  then show "\<exists>tr2. fst (downloadTrack w trackUrl) = tr0 @ tr1 @ Fetch file_url None # tr2"
    by blast
  have c0: "count_list tr0 (Fetch file_url None) = 0"
    using r count_api_trace [of w "fetch_track w" _ _ _ file_url] by (metis fst_conv)
  have c1: "count_list tr1 (Fetch file_url None) = 0"
    using f count_api_trace [of w "fetch_url w" _ _ _ file_url] by (metis fst_conv)
  have c2: "count_list tr2 (Fetch file_url None) = 0" "fetch_urls tr2 = []"
    using t2 by auto
  from whole c0 c1 c2 show "count_list (fst (downloadTrack w trackUrl)) (Fetch file_url None) = 1"
    by simp
  show "count_list (fetch_urls (fst (downloadTrack w trackUrl))) file_url = 1"
    if "file_url \<notin> set (fetch_urls (tr0 @ tr1))"
    using that whole c2 by (simp add: fetch_urls_append count_list_0_iff)
qed

text \<open>The specification's example track, high quality off.\<close>

theorem file_fetched_once_witness:
  "fst (downloadTrack (demo_world False departure_remix) ''https://soundcloud.com/a/b'') =
     [Fetch ''https://api-v2.soundcloud.com/resolve?client_id=L6pWQKWWm6oT4Nv0mTWEkxKypNpleA5m&url=https://soundcloud.com/a/b''
         (Some []),
       Fetch ''https://api-v2.soundcloud.com/media/1/stream/progressive?client_id=L6pWQKWWm6oT4Nv0mTWEkxKypNpleA5m''
         (Some []),
       Fetch ''https://cf-media.sndcdn.com/abc.128.mp3'' None,
       DownloadUrl (ObjectURL ''ID3'') (Some ''choicescarf - Departure Remix.mp3'')] \<and>
   count_list (fst (downloadTrack (demo_world False departure_remix) ''https://soundcloud.com/a/b''))
     (Fetch ''https://cf-media.sndcdn.com/abc.128.mp3'' None) = 1 \<and>
   count_list
     (fetch_urls (fst (downloadTrack (demo_world False departure_remix) ''https://soundcloud.com/a/b'')))
     ''https://cf-media.sndcdn.com/abc.128.mp3'' = 1"
proof -
  let ?w = "demo_world False departure_remix"
  have n: "\<not> (downloadable departure_remix \<and> has_downloads_left departure_remix)"
    by (simp add: departure_remix_def)
  have s: "js_or (pickTranscoding departure_remix ''hq'') (pickTranscoding departure_remix ''sq'')
      = Some progressive_sq"
    by (simp add: pickTranscoding_def js_or_def departure_remix_def hls_hq_def progressive_sq_def)
  have p: "URL_new ?w ''https://cf-media.sndcdn.com/abc.128.mp3''
      = Some (''https://cf-media.sndcdn.com/abc.128.mp3'', [])"
    by (simp add: demo_simps demo_defs)
  have d: "''https://cf-media.sndcdn.com/abc.128.mp3'' \<notin> set (fetch_urls
      ([Fetch ''https://api-v2.soundcloud.com/resolve?client_id=L6pWQKWWm6oT4Nv0mTWEkxKypNpleA5m&url=https://soundcloud.com/a/b''
         (Some (if False then [(''Authorization'', ''OAuth 2-29-secret'')] else []))] @
       [Fetch ''https://api-v2.soundcloud.com/media/1/stream/progressive?client_id=L6pWQKWWm6oT4Nv0mTWEkxKypNpleA5m''
         (Some (if False then [(''Authorization'', ''OAuth 2-29-secret'')] else []))]))"
    by simp
  from file_fetched_once [of ?w "''https://soundcloud.com/a/b''", THEN conjunct1, rule_format,
      OF conjI [OF demo_resolve conjI [OF n conjI [OF s conjI [OF demo_finalize p]]]]] d
    demo_transcoded [of False]
  show ?thesis by simp
qed

section \<open>Client id acquisition, verified\<close>

text \<open>
  What the pattern matches at one place, and what the search over all places returns:
  the token of the leftmost place where the pattern matches, and nothing exactly when
  it matches nowhere.
\<close>

lemma client_id_at_iff:
  "client_id_at s = Some tok \<longleftrightarrow>
     length tok = 32 \<and> list_all is_alnum tok \<and>
     (\<exists>q1 q2 b. s = ''client_id:'' @ q1 # tok @ q2 # b \<and> is_quote q1 \<and> is_quote q2)"
proof
  assume a: "client_id_at s = Some tok"
  then have p: "prefix ''client_id:'' s"
    by (simp add: client_id_at_def split: if_splits)
  then obtain r0 where s: "s = ''client_id:'' @ r0" by (auto simp: prefix_def)
  then have d: "drop 10 s = r0" by simp
  from a p d obtain q1 r where r0: "r0 = q1 # r"
    by (cases r0) (auto simp: client_id_at_def)
  from a p d r0 have c: "is_quote q1" "length (take 32 r) = 32" "list_all is_alnum (take 32 r)"
    "tok = take 32 r" and e: "case drop 32 r of [] \<Rightarrow> False | q' # _ \<Rightarrow> is_quote q'"
    by (auto simp: client_id_at_def split: if_splits)
  from e obtain q2 b where b: "drop 32 r = q2 # b" "is_quote q2"
    by (cases "drop 32 r") auto
  have "r = take 32 r @ drop 32 r" by simp
  with b c have "r = tok @ q2 # b" by simp
  with s r0 have "s = ''client_id:'' @ q1 # tok @ q2 # b" by simp
  with c b show "length tok = 32 \<and> list_all is_alnum tok \<and>
     (\<exists>q1 q2 b. s = ''client_id:'' @ q1 # tok @ q2 # b \<and> is_quote q1 \<and> is_quote q2)"
    by blast
next
  assume "length tok = 32 \<and> list_all is_alnum tok \<and>
     (\<exists>q1 q2 b. s = ''client_id:'' @ q1 # tok @ q2 # b \<and> is_quote q1 \<and> is_quote q2)"
  then obtain q1 q2 b where l: "length tok = 32" "list_all is_alnum tok"
    and s: "s = ''client_id:'' @ q1 # tok @ q2 # b" and q: "is_quote q1" "is_quote q2"
    by blast
  have p: "prefix ''client_id:'' s" unfolding s by (simp add: prefix_def)
  have d: "drop 10 s = q1 # tok @ q2 # b" unfolding s by simp
  from l have t: "take 32 (tok @ q2 # b) = tok" "drop 32 (tok @ q2 # b) = q2 # b"
    by simp_all
  show "client_id_at s = Some tok"
    unfolding client_id_at_def using p d t l q by simp
qed

lemma match_client_id_Some:
  "match_client_id js = Some tok \<Longrightarrow>
     \<exists>a s. js = a @ s \<and> client_id_at s = Some tok \<and>
       (\<forall>a' s'. js = a' @ s' \<and> length a' < length a \<longrightarrow> client_id_at s' = None)"
proof (induction js)
  case Nil
  then show ?case by simp
next
  case (Cons c cs)
  show ?case
  proof (cases "client_id_at (c # cs)")
    case (Some t)
    with Cons.prems have "t = tok" by simp
    with Some have "c # cs = [] @ (c # cs) \<and> client_id_at (c # cs) = Some tok \<and>
       (\<forall>a' s'. c # cs = a' @ s' \<and> length a' < length ([] :: string) \<longrightarrow> client_id_at s' = None)"
      by simp
    then show ?thesis by blast
  next
    case None
    with Cons.prems have "match_client_id cs = Some tok" by simp
    with Cons.IH obtain a s where fs: "cs = a @ s" "client_id_at s = Some tok"
      "\<forall>a' s'. cs = a' @ s' \<and> length a' < length a \<longrightarrow> client_id_at s' = None"
      by blast
    have "client_id_at s' = None" if "c # cs = a' @ s'" "length a' < length (c # a)" for a' s'
    proof (cases a')
      case Nil
      with that None show ?thesis by simp
    next
      case (Cons x xs)
      with that have "cs = xs @ s'" "length xs < length a" by simp_all
      with fs(3) show ?thesis by blast
    qed
    with fs(1,2) have "c # cs = (c # a) @ s \<and> client_id_at s = Some tok \<and>
       (\<forall>a' s'. c # cs = a' @ s' \<and> length a' < length (c # a) \<longrightarrow> client_id_at s' = None)"
      by simp
    then show ?thesis by blast
  qed
qed

lemma match_client_id_None:
  "match_client_id js = None \<longleftrightarrow> (\<forall>a s. js = a @ s \<longrightarrow> client_id_at s = None)"
proof (induction js)
  case Nil
  then show ?case by (simp add: client_id_at_def)
next
  case (Cons c cs)
  show ?case
  proof
    assume n: "match_client_id (c # cs) = None"
    then have h: "client_id_at (c # cs) = None" and t: "match_client_id cs = None"
      by (auto split: option.splits)
    show "\<forall>a s. c # cs = a @ s \<longrightarrow> client_id_at s = None"
    proof (intro allI impI)
      fix a s
      assume e: "c # cs = a @ s"
      show "client_id_at s = None"
      proof (cases a)
        case Nil
        with e h show ?thesis by simp
      next
        case (Cons x xs)
        with e have "cs = xs @ s" by simp
        with t Cons.IH show ?thesis by blast
      qed
    qed
  next
    assume a: "\<forall>a s. c # cs = a @ s \<longrightarrow> client_id_at s = None"
    then have "client_id_at (c # cs) = None" by (metis append_Nil)
    moreover have "\<forall>a s. cs = a @ s \<longrightarrow> client_id_at s = None"
      using a by (metis append_Cons)
    with Cons.IH have "match_client_id cs = None" by blast
    ultimately show "match_client_id (c # cs) = None" by simp
  qed
qed

lemma scrapeClientId_loop_found:
  assumes "filter (\<lambda>s. s \<noteq> []) srcs = pre @ src # post"
    and "\<forall>s \<in> set pre. fetch_text w s None = None \<or>
           (\<exists>r t. fetch_text w s None = Some r \<and> body r = Some t \<and> match_client_id t = None)"
    and "fetch_text w src None = Some resp" and "body resp = Some js"
    and "match_client_id js = Some tok"
  shows "scrapeClientId_loop w srcs = (map (\<lambda>s. Fetch s None) (pre @ [src]), Inr tok)"
  using assms(1,2)
proof (induction srcs arbitrary: pre)
  case Nil
  then show ?case by simp
next
  case (Cons x xs)
  show ?case
  proof (cases "x = []")
    case True
    with Cons.prems have "filter (\<lambda>s. s \<noteq> []) xs = pre @ src # post" by simp
    from Cons.IH [OF this Cons.prems(2)] True show ?thesis by simp
  next
    case False
    with Cons.prems(1) have e: "x # filter (\<lambda>s. s \<noteq> []) xs = pre @ src # post" by simp
    show ?thesis
    proof (cases pre)
      case Nil
      with e have "x = src" by simp
      with Nil False assms(3,4,5) show ?thesis
        by (simp add: bind_io_def read_body_def ret_def)
    next
      case (Cons p pre')
      with e have x: "x = p" and r: "filter (\<lambda>s. s \<noteq> []) xs = pre' @ src # post" by simp_all
      from Cons Cons.prems(2) have q: "\<forall>s \<in> set pre'. fetch_text w s None = None \<or>
           (\<exists>r t. fetch_text w s None = Some r \<and> body r = Some t \<and> match_client_id t = None)"
        by simp
      from Cons Cons.prems(2) x have "fetch_text w x None = None \<or>
           (\<exists>r t. fetch_text w x None = Some r \<and> body r = Some t \<and> match_client_id t = None)"
        by simp
      with Cons.IH [OF r q] False Cons x show ?thesis
        by (auto simp: bind_io_def read_body_def ret_def)
    qed
  qed
qed

lemma scrapeClientId_loop_none:
  assumes "\<forall>s \<in> set (filter (\<lambda>s. s \<noteq> []) srcs). fetch_text w s None = None \<or>
           (\<exists>r t. fetch_text w s None = Some r \<and> body r = Some t \<and> match_client_id t = None)"
  shows "scrapeClientId_loop w srcs =
           (map (\<lambda>s. Fetch s None) (filter (\<lambda>s. s \<noteq> []) srcs), Inl NoClientId)"
  using assms
proof (induction srcs)
  case Nil
  then show ?case by (simp add: throw_def)
next
  case (Cons x xs)
  then have ih: "scrapeClientId_loop w xs =
           (map (\<lambda>s. Fetch s None) (filter (\<lambda>s. s \<noteq> []) xs), Inl NoClientId)"
    by simp
  show ?case
  proof (cases "x = []")
    case True
    with ih show ?thesis by simp
  next
    case False
    with Cons.prems have "fetch_text w x None = None \<or>
           (\<exists>r t. fetch_text w x None = Some r \<and> body r = Some t \<and> match_client_id t = None)"
      by simp
    with ih False show ?thesis
      by (auto simp: bind_io_def read_body_def ret_def)
  qed
qed

text \<open>
  What \<^verbatim>\<open>scrapeClientId\<close> does on a page whose fetched scripts all deliver their
  text. It goes through the script elements that have a \<^verbatim>\<open>src\<close>, in document
  order, and fetches each. When every script before some script either cannot be fetched
  or has a text without a match, and that script's text has one, the function returns
  the token of the leftmost match in that text after having fetched exactly the scripts
  up to it; the token is 32 letters and digits that stand between two quote characters
  after \<^verbatim>\<open>client_id:\<close>. When every script cannot be fetched or has a text
  without a match, the function has fetched them all and throws
  \<^verbatim>\<open>Could not get client_id value from current page\<close> (the specification's
  \<^verbatim>\<open>CredentialNotFound\<close>).
\<close>

lemma scrapeClientId_first_match:
  "(\<forall>pre src post resp js tok.
      filter (\<lambda>s. s \<noteq> []) (script_srcs w) = pre @ src # post \<and>
      (\<forall>s \<in> set pre. fetch_text w s None = None \<or>
         (\<exists>r t. fetch_text w s None = Some r \<and> body r = Some t \<and> match_client_id t = None)) \<and>
      fetch_text w src None = Some resp \<and> body resp = Some js \<and>
      match_client_id js = Some tok \<longrightarrow>
      scrapeClientId w = (map (\<lambda>s. Fetch s None) (pre @ [src]), Inr tok) \<and>
      length tok = 32 \<and> list_all is_alnum tok \<and>
      (\<exists>a q1 q2 b. js = a @ ''client_id:'' @ q1 # tok @ q2 # b \<and> is_quote q1 \<and> is_quote q2 \<and>
         (\<forall>a' s'. js = a' @ s' \<and> length a' < length a \<longrightarrow> client_id_at s' = None))) \<and>
   ((\<forall>s \<in> set (filter (\<lambda>s. s \<noteq> []) (script_srcs w)). fetch_text w s None = None \<or>
         (\<exists>r t. fetch_text w s None = Some r \<and> body r = Some t \<and> match_client_id t = None)) \<longrightarrow>
      scrapeClientId w =
        (map (\<lambda>s. Fetch s None) (filter (\<lambda>s. s \<noteq> []) (script_srcs w)), Inl NoClientId))"
proof (intro conjI allI impI)
  fix pre src post resp js tok
  assume a: "filter (\<lambda>s. s \<noteq> []) (script_srcs w) = pre @ src # post \<and>
      (\<forall>s \<in> set pre. fetch_text w s None = None \<or>
         (\<exists>r t. fetch_text w s None = Some r \<and> body r = Some t \<and> match_client_id t = None)) \<and>
      fetch_text w src None = Some resp \<and> body resp = Some js \<and>
      match_client_id js = Some tok"
  then show "scrapeClientId w = (map (\<lambda>s. Fetch s None) (pre @ [src]), Inr tok)"
    unfolding scrapeClientId_def using scrapeClientId_loop_found [of "script_srcs w" pre src post w resp js tok]
    by blast
  from a have m: "match_client_id js = Some tok" by simp
  from match_client_id_Some [OF m] obtain a0 s0 where
    fs: "js = a0 @ s0" "client_id_at s0 = Some tok"
      "\<forall>a' s'. js = a' @ s' \<and> length a' < length a0 \<longrightarrow> client_id_at s' = None"
    by blast
  from fs(2) have t: "length tok = 32" "list_all is_alnum tok"
    and "\<exists>q1 q2 b. s0 = ''client_id:'' @ q1 # tok @ q2 # b \<and> is_quote q1 \<and> is_quote q2"
    by (simp_all add: client_id_at_iff)
  then obtain q1 q2 b where q: "s0 = ''client_id:'' @ q1 # tok @ q2 # b" "is_quote q1" "is_quote q2"
    by blast
  from t show "length tok = 32" "list_all is_alnum tok" by simp_all
  from fs(1,3) q
  have "js = a0 @ ''client_id:'' @ q1 # tok @ q2 # b \<and> is_quote q1 \<and> is_quote q2 \<and>
         (\<forall>a' s'. js = a' @ s' \<and> length a' < length a0 \<longrightarrow> client_id_at s' = None)"
    by simp
  then show "\<exists>a q1 q2 b. js = a @ ''client_id:'' @ q1 # tok @ q2 # b \<and> is_quote q1 \<and> is_quote q2 \<and>
         (\<forall>a' s'. js = a' @ s' \<and> length a' < length a \<longrightarrow> client_id_at s' = None)"
    by blast
next
  assume "\<forall>s \<in> set (filter (\<lambda>s. s \<noteq> []) (script_srcs w)). fetch_text w s None = None \<or>
         (\<exists>r t. fetch_text w s None = Some r \<and> body r = Some t \<and> match_client_id t = None)"
  then show "scrapeClientId w =
        (map (\<lambda>s. Fetch s None) (filter (\<lambda>s. s \<noteq> []) (script_srcs w)), Inl NoClientId)"
    unfolding scrapeClientId_def by (rule scrapeClientId_loop_none)
qed

text \<open>
  The concrete page, whose fourth script element holds the client id, and the same
  page without that element.
\<close>

lemma demo_script_match:
  "match_client_id demo_script = Some ''L6pWQKWWm6oT4Nv0mTWEkxKypNpleA5m''"
  by (simp add: demo_script_def client_id_at_def is_quote_def is_alnum_def)

lemma demo_fetch_text:
  "fetch_text (demo_world hq t) ''https://a-v2.sndcdn.com/assets/0.js'' None = None"
  "fetch_text (demo_world hq t) ''https://a-v2.sndcdn.com/assets/1.js'' None =
     Some \<lparr>ok = True, status = 200, body = Some ''var client_id;''\<rparr>"
  "fetch_text (demo_world hq t) ''https://a-v2.sndcdn.com/assets/2.js'' None =
     Some \<lparr>ok = True, status = 200, body = Some demo_script\<rparr>"
  "script_srcs (demo_world hq t) = [[], ''https://a-v2.sndcdn.com/assets/0.js'',
                     ''https://a-v2.sndcdn.com/assets/1.js'', ''https://a-v2.sndcdn.com/assets/2.js'']"
  by (simp_all add: demo_world_def)

lemma scrapeClientId_first_match_demo:
  "scrapeClientId (demo_world True night_drive) =
     ([Fetch ''https://a-v2.sndcdn.com/assets/0.js'' None,
       Fetch ''https://a-v2.sndcdn.com/assets/1.js'' None,
       Fetch ''https://a-v2.sndcdn.com/assets/2.js'' None],
      Inr ''L6pWQKWWm6oT4Nv0mTWEkxKypNpleA5m'') \<and>
   scrapeClientId page_without_id =
     ([Fetch ''https://a-v2.sndcdn.com/assets/0.js'' None,
       Fetch ''https://a-v2.sndcdn.com/assets/1.js'' None],
      Inl NoClientId)"
proof -
  let ?w = "demo_world True night_drive"
  have 1: "filter (\<lambda>s. s \<noteq> []) (script_srcs ?w) =
      [''https://a-v2.sndcdn.com/assets/0.js'', ''https://a-v2.sndcdn.com/assets/1.js'']
      @ ''https://a-v2.sndcdn.com/assets/2.js'' # []"
    by (simp add: demo_fetch_text)
  have 2: "\<forall>s \<in> set [''https://a-v2.sndcdn.com/assets/0.js'', ''https://a-v2.sndcdn.com/assets/1.js''].
      fetch_text ?w s None = None \<or>
         (\<exists>r t. fetch_text ?w s None = Some r \<and> body r = Some t \<and> match_client_id t = None)"
    by (simp add: demo_fetch_text client_id_at_def)
  have 3: "fetch_text ?w ''https://a-v2.sndcdn.com/assets/2.js'' None =
      Some \<lparr>ok = True, status = 200, body = Some demo_script\<rparr>"
    by (simp add: demo_fetch_text)
  have 4: "body \<lparr>ok = True, status = 200, body = Some demo_script\<rparr> = Some demo_script"
    by simp
  from scrapeClientId_first_match [of ?w, THEN conjunct1, rule_format,
      OF conjI [OF 1 conjI [OF 2 conjI [OF 3 conjI [OF 4 demo_script_match]]]]]
  have a: "scrapeClientId ?w =
     ([Fetch ''https://a-v2.sndcdn.com/assets/0.js'' None,
       Fetch ''https://a-v2.sndcdn.com/assets/1.js'' None,
       Fetch ''https://a-v2.sndcdn.com/assets/2.js'' None],
      Inr ''L6pWQKWWm6oT4Nv0mTWEkxKypNpleA5m'')"
    by simp
  have 5: "filter (\<lambda>s. s \<noteq> []) (script_srcs page_without_id) =
      [''https://a-v2.sndcdn.com/assets/0.js'', ''https://a-v2.sndcdn.com/assets/1.js'']"
    by (simp add: page_without_id_def)
  have 6: "fetch_text page_without_id = fetch_text ?w"
    by (simp add: page_without_id_def)
  have "\<forall>s \<in> set (filter (\<lambda>s. s \<noteq> []) (script_srcs page_without_id)).
      fetch_text page_without_id s None = None \<or>
         (\<exists>r t. fetch_text page_without_id s None = Some r \<and> body r = Some t \<and>
            match_client_id t = None)"
    unfolding 5 6 by (rule 2)
  from scrapeClientId_first_match [of page_without_id, THEN conjunct2, THEN mp, OF this]
  have "scrapeClientId page_without_id =
     ([Fetch ''https://a-v2.sndcdn.com/assets/0.js'' None,
       Fetch ''https://a-v2.sndcdn.com/assets/1.js'' None],
      Inl NoClientId)"
    by (simp add: 5)
  with a show ?thesis by simp
qed

text \<open>
  Claim C6. Client id acquisition goes through the page's external scripts in order,
  fetches each script's text and returns the first token that matches the
  \<^verbatim>\<open>client_id\<close> pattern; when no script yields a match it fails with
  \<^verbatim>\<open>CredentialNotFound\<close>. The code does so while every fetched script delivers
  its text, and it skips a script whose \<^verbatim>\<open>fetch\<close> rejects. It does not skip a
  script whose \<^verbatim>\<open>text()\<close> rejects, because that call stands after the
  \<^verbatim>\<open>try\<close> block: on the page whose first script cannot be read and whose
  second script holds the client id, \<^verbatim>\<open>scrapeClientId\<close> ends with the error of
  the body after one request and never fetches the second script, while the same page
  with the first \<^verbatim>\<open>fetch\<close> rejecting yields the client id. On the page with the
  unreadable script alone, where no script yields a match, the error is again the one
  of the body, not \<^verbatim>\<open>Could not get client_id value from current page\<close>.
\<close>

theorem scrapeClientId_unreadable_script:
  "scrapeClientId page_unreadable_script =
     ([Fetch ''https://a-v2.sndcdn.com/assets/1.js'' None], Inl BodyRejected) \<and>
   map_option body (fetch_text page_unreadable_script ''https://a-v2.sndcdn.com/assets/2.js'' None)
     = Some (Some demo_script) \<and>
   match_client_id demo_script = Some ''L6pWQKWWm6oT4Nv0mTWEkxKypNpleA5m'' \<and>
   scrapeClientId page_unfetchable_script =
     ([Fetch ''https://a-v2.sndcdn.com/assets/1.js'' None,
       Fetch ''https://a-v2.sndcdn.com/assets/2.js'' None],
      Inr ''L6pWQKWWm6oT4Nv0mTWEkxKypNpleA5m'') \<and>
   scrapeClientId page_only_unreadable =
     ([Fetch ''https://a-v2.sndcdn.com/assets/1.js'' None], Inl BodyRejected)"
proof -
  have 1: "scrapeClientId page_unreadable_script =
     ([Fetch ''https://a-v2.sndcdn.com/assets/1.js'' None], Inl BodyRejected)"
    by (simp add: scrapeClientId_def page_unreadable_script_def bind_io_def read_body_def
        throw_def)
  have 2: "map_option body
      (fetch_text page_unreadable_script ''https://a-v2.sndcdn.com/assets/2.js'' None)
     = Some (Some demo_script)"
    by (simp add: page_unreadable_script_def)
  have 3: "scrapeClientId page_unfetchable_script =
     ([Fetch ''https://a-v2.sndcdn.com/assets/1.js'' None,
       Fetch ''https://a-v2.sndcdn.com/assets/2.js'' None],
      Inr ''L6pWQKWWm6oT4Nv0mTWEkxKypNpleA5m'')"
    by (simp add: scrapeClientId_def page_unfetchable_script_def page_unreadable_script_def
        bind_io_def read_body_def ret_def demo_script_match)
  have 4: "scrapeClientId page_only_unreadable =
     ([Fetch ''https://a-v2.sndcdn.com/assets/1.js'' None], Inl BodyRejected)"
    by (simp add: scrapeClientId_def page_only_unreadable_def page_unreadable_script_def
        bind_io_def read_body_def throw_def)
  from 1 2 3 4 demo_script_match show ?thesis by simp
qed

end
